theory Spec2Isabelle
  imports Complex_Main "HOL-Library.Sublist" "HOL-Library.Log_Nat"
begin

section \<open>JavaScript numbers\<close>

text \<open>
  A JavaScript Number is an IEEE 754 double. A finite double is modelled by the rational
  number it denotes, and \<open>NaN\<close> by a value of its own. Every arithmetic operation rounds
  its exact result to the nearest double, a tie going to the even significand: this is
  \<open>fl\<close>, with 53 significant bits and the smallest exponent of the format. Outside the
  model are the two infinities (as inputs and as the result of an overflow) and the sign
  of zero. Every division of the modelled code is guarded against a zero divisor, and
  \<open>jdiv\<close> answers \<open>NaN\<close> there.
\<close>

definition pow2 :: "int \<Rightarrow> rat" where
  "pow2 e = 2 powi e"

text \<open>The exponent of a number other than 0: the largest \<open>e\<close> with \<open>pow2 e \<le> \<bar>x\<bar>\<close>.\<close>

definition expo :: "rat \<Rightarrow> int" where
  "expo x = (let (p, q) = quotient_of x; e0 = bitlen \<bar>p\<bar> - bitlen q
             in if pow2 e0 \<le> \<bar>x\<bar> then e0 else e0 - 1)"

text \<open>The nearest integer, a tie going to the even one.\<close>

definition round_even :: "rat \<Rightarrow> int" where
  "round_even y = (let n = \<lfloor>y\<rfloor>; r = y - of_int n
     in if r < 1 / 2 then n else if 1 / 2 < r then n + 1 else if even n then n else n + 1)"

text \<open>The double nearest to a rational number.\<close>

definition fl :: "rat \<Rightarrow> rat" where
  "fl x = (if x = 0 then 0
           else (let u = pow2 (max (expo x - 52) (- 1074)) in of_int (round_even (x / u)) * u))"


datatype jsnum = NaN | Num rat

fun isNaN :: "jsnum \<Rightarrow> bool" where
  "isNaN NaN = True"
| "isNaN (Num r) = False"

text \<open>Truthiness of a number: \<open>NaN\<close> and \<open>0\<close> are falsy.\<close>

fun truthy :: "jsnum \<Rightarrow> bool" where
  "truthy NaN = False"
| "truthy (Num r) = (r \<noteq> 0)"

text \<open>Comparisons: any comparison with \<open>NaN\<close> is false.\<close>

fun jlt :: "jsnum \<Rightarrow> jsnum \<Rightarrow> bool" where
  "jlt (Num a) (Num b) = (a < b)"
| "jlt a b = False"

fun jle :: "jsnum \<Rightarrow> jsnum \<Rightarrow> bool" where
  "jle (Num a) (Num b) = (a \<le> b)"
| "jle a b = False"

fun jgt :: "jsnum \<Rightarrow> jsnum \<Rightarrow> bool" where
  "jgt (Num a) (Num b) = (b < a)"
| "jgt a b = False"

fun jge :: "jsnum \<Rightarrow> jsnum \<Rightarrow> bool" where
  "jge (Num a) (Num b) = (b \<le> a)"
| "jge a b = False"

fun jadd :: "jsnum \<Rightarrow> jsnum \<Rightarrow> jsnum" where
  "jadd (Num a) (Num b) = Num (fl (a + b))"
| "jadd a b = NaN"

fun jsub :: "jsnum \<Rightarrow> jsnum \<Rightarrow> jsnum" where
  "jsub (Num a) (Num b) = Num (fl (a - b))"
| "jsub a b = NaN"

fun jmul :: "jsnum \<Rightarrow> jsnum \<Rightarrow> jsnum" where
  "jmul (Num a) (Num b) = Num (fl (a * b))"
| "jmul a b = NaN"

fun jdiv :: "jsnum \<Rightarrow> jsnum \<Rightarrow> jsnum" where
  "jdiv (Num a) (Num b) = (if b = 0 then NaN else Num (fl (a / b)))"
| "jdiv a b = NaN"

text \<open>
  \<open>Math.round\<close>: the nearest integer, a tie going to the larger one. The result is exact:
  an integer next to a double is a double.
\<close>

fun Math_round :: "jsnum \<Rightarrow> jsnum" where
  "Math_round (Num a) = Num (of_int \<lfloor>a + 1 / 2\<rfloor>)"
| "Math_round NaN = NaN"

text \<open>\<open>x || d\<close> on numbers.\<close>

definition num_or :: "jsnum \<Rightarrow> jsnum \<Rightarrow> jsnum" where
  "num_or x d = (if truthy x then x else d)"

section \<open>Strings\<close>

text \<open>Strings are byte lists; \<open>trim\<close> and \<open>toLowerCase\<close> are modelled on ASCII.\<close>

definition is_ws :: "char \<Rightarrow> bool" where
  "is_ws c = List.member [CHR 0x09, CHR 0x0A, CHR 0x0B, CHR 0x0C, CHR 0x0D, CHR 0x20] c"

definition trim :: "string \<Rightarrow> string" where
  "trim s = rev (dropWhile is_ws (rev (dropWhile is_ws s)))"

text \<open>\<open>s || d\<close> on strings: the empty string is falsy.\<close>

definition str_or :: "string \<Rightarrow> string \<Rightarrow> string" where
  "str_or s d = (if s = [] then d else s)"

definition lower_char :: "char \<Rightarrow> char" where
  "lower_char c =
     (let n = (of_char c :: nat) in if 65 \<le> n \<and> n \<le> 90 then char_of (n + 32) else c)"

definition toLowerCase :: "string \<Rightarrow> string" where
  "toLowerCase s = map lower_char s"

text \<open>\<open>hay.includes(needle)\<close>.\<close>

fun str_includes :: "string \<Rightarrow> string \<Rightarrow> bool" where
  "str_includes [] needle = (needle = [])"
| "str_includes (c # cs) needle = (prefix needle (c # cs) \<or> str_includes cs needle)"

section \<open>Test entries and the entry form (TestSeriesTracker)\<close>

text \<open>
  One stored test. \<open>None\<close> is JavaScript's \<open>null\<close>. The field \<open>id\<close> of the source is
  \<open>id'\<close> here.
\<close>

record entry =
  id' :: string
  subject :: string
  category :: string
  provider :: string
  maxMarks :: jsnum
  obtainedMarks :: jsnum
  percentage :: jsnum
  correctCount :: "jsnum option"
  incorrectCount :: "jsnum option"
  notAttemptedCount :: "jsnum option"
  testRank :: "jsnum option"
  totalTestTakers :: "jsnum option"
  rankPercentile :: "jsnum option"
  date :: string
  "notes" :: string

text \<open>
  The text of a numeric form input. The code reads it in two ways only: as a truth value
  (the empty string is falsy) and through \<open>Number(...)\<close>. \<open>Blank\<close> is the empty string,
  \<open>Typed n\<close> a non-empty string that \<open>Number\<close> converts to the double \<open>n\<close> (\<open>NaN\<close>
  when it is not numeric).
\<close>

datatype field = Blank | Typed jsnum

fun Number :: "field \<Rightarrow> jsnum" where
  "Number Blank = Num 0"
| "Number (Typed n) = n"

fun filled :: "field \<Rightarrow> bool" where
  "filled Blank = False"
| "filled (Typed n) = True"

record form =
  form_id :: "string option"
  form_subject :: string
  form_category :: string
  form_provider :: string
  form_maxMarks :: field
  form_obtainedMarks :: field
  form_correctCount :: field
  form_incorrectCount :: field
  form_notAttemptedCount :: field
  form_testRank :: field
  form_totalTestTakers :: field
  form_date :: string
  form_notes :: string

definition hasRank :: "form \<Rightarrow> bool" where
  "hasRank f = (filled (form_testRank f) \<and> filled (form_totalTestTakers f))"

definition hasCounts :: "form \<Rightarrow> bool" where
  "hasCounts f = (filled (form_correctCount f) \<or> filled (form_incorrectCount f)
     \<or> filled (form_notAttemptedCount f))"

text \<open>
  The validation part of \<open>handleAddOrUpdate\<close>: each early return with its message, in the
  order of the source; \<open>None\<close> when every check passes.
\<close>

definition validation :: "form \<Rightarrow> string option" where
  "validation f =
    (let max = Number (form_maxMarks f);
         obt = Number (form_obtainedMarks f);
         correct = Number (form_correctCount f);
         incorrect = Number (form_incorrectCount f);
         notAttempted = Number (form_notAttemptedCount f);
         rank = Number (form_testRank f);
         totalTakers = Number (form_totalTestTakers f)
     in if trim (form_subject f) = [] then Some ''Please enter subject.''
        else if \<not> truthy max \<or> jle max (Num 0)
          then Some ''Max marks should be a positive number.''
        else if isNaN obt \<or> jlt obt (Num 0)
          then Some ''Obtained marks should be a non-negative number.''
        else if jgt obt max
          then Some ''Obtained marks cannot be greater than Max Marks.''
        else if isNaN correct \<or> jlt correct (Num 0)
          then Some ''Correct count must be a non-negative number.''
        else if isNaN incorrect \<or> jlt incorrect (Num 0)
          then Some ''Incorrect count must be a non-negative number.''
        else if isNaN notAttempted \<or> jlt notAttempted (Num 0)
          then Some ''Not Attempted count must be a non-negative number.''
        else if hasRank f \<and> (\<not> truthy rank \<or> jle rank (Num 0))
          then Some ''Your Rank must be a positive number.''
        else if hasRank f \<and> (\<not> truthy totalTakers \<or> jle totalTakers (Num 0))
          then Some ''Total Test Takers must be a positive number.''
        else if hasRank f \<and> jgt rank totalTakers
          then Some ''Your Rank cannot be greater than Total Test Takers.''
        else None)"

text \<open>
  The entry \<open>handleAddOrUpdate\<close> builds once validation has passed. \<open>uid\<close> is the value
  \<open>uid()\<close> would return and \<open>today\<close> the value of \<open>formatDateInput(new Date())\<close>.
\<close>

definition makeEntry :: "string \<Rightarrow> string \<Rightarrow> form \<Rightarrow> entry" where
  "makeEntry uid today f =
    (let max = Number (form_maxMarks f);
         obt = Number (form_obtainedMarks f);
         correct = Number (form_correctCount f);
         incorrect = Number (form_incorrectCount f);
         notAttempted = Number (form_notAttemptedCount f);
         rank = Number (form_testRank f);
         totalTakers = Number (form_totalTestTakers f)
     in \<lparr> id' = (case form_id f of None \<Rightarrow> uid | Some i \<Rightarrow> str_or i uid),
          subject = trim (form_subject f),
          category = form_category f,
          provider = form_provider f,
          maxMarks = max,
          obtainedMarks = obt,
          percentage = (if truthy max
            then jdiv (Math_round (jmul (jdiv obt max) (Num 10000))) (Num 100)
            else Num 0),
          correctCount = (if hasCounts f then Some correct else None),
          incorrectCount = (if hasCounts f then Some incorrect else None),
          notAttemptedCount = (if hasCounts f then Some notAttempted else None),
          testRank = (if hasRank f then Some rank else None),
          totalTestTakers = (if hasRank f then Some totalTakers else None),
          rankPercentile = (if hasRank f
            then Some (jdiv (Math_round (jmul (jsub (Num 1) (jdiv rank totalTakers)) (Num 10000)))
                        (Num 100))
            else None),
          date = str_or (form_date f) today,
          notes = str_or (form_notes f) [] \<rparr>)"

section \<open>The collection and its update on submit\<close>

datatype toast_kind = ToastSuccess | ToastError

text \<open>The component state the handlers change: the stored tests and the toast.\<close>

record app =
  tests :: "entry list"
  toastAlert :: "(string \<times> toast_kind) option"

text \<open>
  \<open>Array.prototype.sort\<close> with a comparator. The sort is stable, and a comparator result
  that is \<open>NaN\<close> counts as \<open>0\<close>. \<open>js_insert\<close> puts \<open>x\<close>, which stood before the
  elements of the sorted rest, in front of the first element it does not have to follow.
  When the comparator never answers \<open>NaN\<close> on the list, every stable sort returns this
  list; otherwise the order depends on the engine.
\<close>

fun js_insert :: "('a \<Rightarrow> 'a \<Rightarrow> jsnum) \<Rightarrow> 'a \<Rightarrow> 'a list \<Rightarrow> 'a list" where
  "js_insert cmp x [] = [x]"
| "js_insert cmp x (y # ys) =
     (if jgt (cmp x y) (Num 0) then y # js_insert cmp x ys else x # y # ys)"

definition js_sort :: "('a \<Rightarrow> 'a \<Rightarrow> jsnum) \<Rightarrow> 'a list \<Rightarrow> 'a list" where
  "js_sort cmp xs = foldr (js_insert cmp) xs []"

text \<open>
  The comparator \<open>(a, b) => new Date(b.date) - new Date(a.date)\<close>. The parameter \<open>dv\<close>
  is the time value of \<open>new Date(s)\<close> for a date string \<open>s\<close> (\<open>NaN\<close> for an invalid
  date).
\<close>

definition byDateDesc :: "(string \<Rightarrow> jsnum) \<Rightarrow> entry \<Rightarrow> entry \<Rightarrow> jsnum" where
  "byDateDesc dv a b = jsub (dv (date b)) (dv (date a))"

text \<open>The updater passed to \<open>setTests\<close> by \<open>handleAddOrUpdate\<close>.\<close>

definition addOrReplace :: "(string \<Rightarrow> jsnum) \<Rightarrow> entry \<Rightarrow> entry list \<Rightarrow> entry list" where
  "addOrReplace dv e prev =
     (if list_ex (\<lambda>p. id' p = id' e) prev
      then map (\<lambda>p. if id' p = id' e then e else p) prev
      else js_sort (byDateDesc dv) (e # prev))"

definition handleAddOrUpdate ::
  "(string \<Rightarrow> jsnum) \<Rightarrow> string \<Rightarrow> string \<Rightarrow> form \<Rightarrow> app \<Rightarrow> app" where
  "handleAddOrUpdate dv uid today f st =
     (case validation f of
        Some msg \<Rightarrow> st\<lparr>toastAlert := Some (msg, ToastError)\<rparr>
      | None \<Rightarrow>
          (let e = makeEntry uid today f
           in st\<lparr>tests := addOrReplace dv e (tests st),
                 toastAlert := Some
                   (if list_ex (\<lambda>p. id' p = id' e) (tests st)
                    then ''Test updated successfully!''
                    else ''Test added successfully!'', ToastSuccess)\<rparr>))"

section \<open>JSON export and import\<close>

text \<open>
  A numeric property of a record in an imported file. \<open>handleImportJSON\<close> reads it
  through \<open>Number(...)\<close> only: \<open>Absent\<close> is a missing property (\<open>undefined\<close>), \<open>JNull\<close>
  is \<open>null\<close>, \<open>JNum r\<close> a JSON number that is parsed as the double \<open>r\<close> and \<open>JText n\<close>
  a string (or other value) that \<open>Number\<close> converts to \<open>n\<close>.
\<close>

datatype jval = Absent | JNull | JNum rat | JText jsnum

fun NumberJ :: "jval \<Rightarrow> jsnum" where
  "NumberJ Absent = NaN"
| "NumberJ JNull = Num 0"
| "NumberJ (JNum r) = Num r"
| "NumberJ (JText n) = n"

text \<open>
  A text property is \<open>None\<close> when missing or \<open>null\<close>; \<open>d.p || dflt\<close> also replaces the
  empty string.
\<close>

fun prop_or :: "string option \<Rightarrow> string \<Rightarrow> string" where
  "prop_or None d = d"
| "prop_or (Some s) d = str_or s d"

record raw =
  raw_id :: "string option"
  raw_subject :: "string option"
  raw_category :: "string option"
  raw_provider :: "string option"
  raw_maxMarks :: jval
  raw_obtainedMarks :: jval
  raw_percentage :: jval
  raw_correctCount :: jval
  raw_incorrectCount :: jval
  raw_notAttemptedCount :: jval
  raw_testRank :: jval
  raw_totalTestTakers :: jval
  raw_rankPercentile :: jval
  raw_date :: "string option"
  raw_notes :: "string option"

text \<open>
  What \<open>JSON.parse\<close> makes of a file: \<open>NotJSON msg\<close> when it throws (with the engine's
  message), a top-level array (an element \<open>None\<close> is a \<open>null\<close> element, any other
  element is read through its properties), a top-level object, or a top-level scalar.
  The text between \<open>JSON.stringify\<close> and \<open>JSON.parse\<close> is not modelled: the document
  stands for its text.
\<close>

datatype document = NotJSON string | JArray "raw option list" | JObject raw | JScalar

fun isArray :: "document \<Rightarrow> bool" where
  "isArray (JArray ds) = True"
| "isArray d = False"

text \<open>\<open>JSON.stringify\<close> on a number writes \<open>null\<close> for \<open>NaN\<close>.\<close>

fun jsonNum :: "jsnum \<Rightarrow> jval" where
  "jsonNum (Num r) = JNum r"
| "jsonNum NaN = JNull"

fun jsonOpt :: "jsnum option \<Rightarrow> jval" where
  "jsonOpt None = JNull"
| "jsonOpt (Some n) = jsonNum n"

definition toRecord :: "entry \<Rightarrow> raw" where
  "toRecord t =
     \<lparr> raw_id = Some (id' t), raw_subject = Some (subject t),
       raw_category = Some (category t), raw_provider = Some (provider t),
       raw_maxMarks = jsonNum (maxMarks t), raw_obtainedMarks = jsonNum (obtainedMarks t),
       raw_percentage = jsonNum (percentage t),
       raw_correctCount = jsonOpt (correctCount t),
       raw_incorrectCount = jsonOpt (incorrectCount t),
       raw_notAttemptedCount = jsonOpt (notAttemptedCount t),
       raw_testRank = jsonOpt (testRank t),
       raw_totalTestTakers = jsonOpt (totalTestTakers t),
       raw_rankPercentile = jsonOpt (rankPercentile t),
       raw_date = Some (date t), raw_notes = Some (notes t) \<rparr>"

text \<open>\<open>handleExportJSON\<close>: the document written for the stored tests.\<close>

definition handleExportJSON :: "app \<Rightarrow> document" where
  "handleExportJSON st = JArray (map (\<lambda>t. Some (toRecord t)) (tests st))"

text \<open>The function mapped over the array by \<open>handleImportJSON\<close>.\<close>

definition normalizeImported :: "string \<Rightarrow> string \<Rightarrow> raw \<Rightarrow> entry" where
  "normalizeImported uid today d =
    (let max = num_or (NumberJ (raw_maxMarks d)) (Num 0);
         obt = num_or (NumberJ (raw_obtainedMarks d)) (Num 0);
         rank = NumberJ (raw_testRank d);
         totalTakers = NumberJ (raw_totalTestTakers d);
         hasRank = (jgt rank (Num 0) \<and> jgt totalTakers (Num 0) \<and> jle rank totalTakers)
     in \<lparr> id' = prop_or (raw_id d) uid,
          subject = prop_or (raw_subject d) ''Unknown'',
          category = prop_or (raw_category d) ''Topic Wise'',
          provider = prop_or (raw_provider d) ''Ace Academy'',
          maxMarks = max,
          obtainedMarks = obt,
          percentage = (if truthy max
            then jdiv (Math_round (jmul (jdiv obt max) (Num 10000))) (Num 100)
            else Num 0),
          correctCount = (if jgt (NumberJ (raw_correctCount d)) (Num 0)
            then Some (NumberJ (raw_correctCount d)) else None),
          incorrectCount = (if jgt (NumberJ (raw_incorrectCount d)) (Num 0)
            then Some (NumberJ (raw_incorrectCount d)) else None),
          notAttemptedCount = (if jgt (NumberJ (raw_notAttemptedCount d)) (Num 0)
            then Some (NumberJ (raw_notAttemptedCount d)) else None),
          testRank = (if hasRank then Some rank else None),
          totalTestTakers = (if hasRank then Some totalTakers else None),
          rankPercentile = (if hasRank
            then Some (jdiv (Math_round (jmul (jsub (Num 1) (jdiv rank totalTakers)) (Num 10000)))
                        (Num 100))
            else None),
          date = prop_or (raw_date d) today,
          notes = prop_or (raw_notes d) [] \<rparr>)"

text \<open>
  \<open>data.map(...)\<close>: \<open>uids i\<close> is what \<open>uid()\<close> would return for the element at index
  \<open>i\<close>. Reading a property of a \<open>null\<close> element throws a TypeError; the result is then
  \<open>None\<close>.
\<close>

fun normalizeAll :: "(nat \<Rightarrow> string) \<Rightarrow> string \<Rightarrow> nat \<Rightarrow> raw option list \<Rightarrow> entry list option" where
  "normalizeAll uids today i [] = Some []"
| "normalizeAll uids today i (None # ds) = None"
| "normalizeAll uids today i (Some d # ds) =
     (case normalizeAll uids today (Suc i) ds of
        None \<Rightarrow> None
      | Some es \<Rightarrow> Some (normalizeImported (uids i) today d # es))"

definition invalidFormat :: string where
  "invalidFormat = ''Invalid file format. Ensure it's an array of test objects.''"

definition nullElement :: string where
  "nullElement = ''Cannot read properties of null (reading 'maxMarks')''"

definition importFailed :: "string \<Rightarrow> app \<Rightarrow> app" where
  "importFailed msg st = st\<lparr>toastAlert := Some (''Failed to import: '' @ msg, ToastError)\<rparr>"

text \<open>
  \<open>handleImportJSON\<close>, from the parsed file on: the body of \<open>reader.onload\<close> with its
  \<open>try\<close>/\<open>catch\<close>.
\<close>

definition handleImportJSON ::
  "(string \<Rightarrow> jsnum) \<Rightarrow> (nat \<Rightarrow> string) \<Rightarrow> string \<Rightarrow> document \<Rightarrow> app \<Rightarrow> app" where
  "handleImportJSON dv uids today data st =
     (case data of
        NotJSON msg \<Rightarrow> importFailed msg st
      | JArray ds \<Rightarrow>
          (case normalizeAll uids today 0 ds of
             None \<Rightarrow> importFailed nullElement st
           | Some normalized \<Rightarrow>
               st\<lparr>tests := js_sort (byDateDesc dv) (normalized @ tests st),
                   toastAlert := Some (''Data imported successfully!'', ToastSuccess)\<rparr>)
      | _ \<Rightarrow> importFailed invalidFormat st)"

text \<open>The local \<open>hasRank\<close> of \<open>handleImportJSON\<close>, as a predicate on the record.\<close>

definition importHasRank :: "raw \<Rightarrow> bool" where
  "importHasRank d = (jgt (NumberJ (raw_testRank d)) (Num 0)
     \<and> jgt (NumberJ (raw_totalTestTakers d)) (Num 0)
     \<and> jle (NumberJ (raw_testRank d)) (NumberJ (raw_totalTestTakers d)))"

section \<open>Filtering\<close>

text \<open>The filter state of the component.\<close>

record filters =
  filterProvider :: string
  filterSubject :: string
  dateFrom :: string
  dateTo :: string
  search :: string

definition providerFilteredTests :: "filters \<Rightarrow> entry list \<Rightarrow> entry list" where
  "providerFilteredTests fs ts =
     (if filterProvider fs = ''All'' then ts
      else filter (\<lambda>t. str_or (provider t) ''Other'' = filterProvider fs) ts)"

text \<open>The callback of \<open>filtered\<close>, with its early returns.\<close>

definition keeps :: "(string \<Rightarrow> jsnum) \<Rightarrow> filters \<Rightarrow> entry \<Rightarrow> bool" where
  "keeps dv fs t =
     (if filterSubject fs \<noteq> ''All'' \<and> subject t \<noteq> filterSubject fs then False
      else if dateFrom fs \<noteq> [] \<and> jlt (dv (date t)) (dv (dateFrom fs)) then False
      else if dateTo fs \<noteq> [] \<and> jgt (dv (date t)) (dv (dateTo fs)) then False
      else if search fs \<noteq> [] then
        (let s = toLowerCase (search fs)
         in if \<not> str_includes (toLowerCase (subject t)) s
               \<and> \<not> str_includes (toLowerCase (str_or (notes t) [])) s
               \<and> \<not> str_includes (toLowerCase (str_or (category t) [])) s
               \<and> \<not> str_includes (toLowerCase (str_or (provider t) [])) s
            then False else True)
      else True)"

definition filtered :: "(string \<Rightarrow> jsnum) \<Rightarrow> filters \<Rightarrow> entry list \<Rightarrow> entry list" where
  "filtered dv fs ts = filter (keeps dv fs) (providerFilteredTests fs ts)"

section \<open>CSV export\<close>

text \<open>
  A value put into a CSV row: \<open>null\<close>, a string or a number. \<open>String(n)\<close> for a number
  is the parameter \<open>numStr\<close>.
\<close>

datatype cell = CNull | CStr string | CNum jsnum

fun String :: "(jsnum \<Rightarrow> string) \<Rightarrow> cell \<Rightarrow> string" where
  "String numStr CNull = ''null''"
| "String numStr (CStr s) = s"
| "String numStr (CNum n) = numStr n"

text \<open>\<open>s.replace(/"/g, '""')\<close>.\<close>

fun replace_quotes :: "string \<Rightarrow> string" where
  "replace_quotes [] = []"
| "replace_quotes (c # cs) =
     (if c = CHR 0x22 then CHR 0x22 # CHR 0x22 # replace_quotes cs else c # replace_quotes cs)"

definition csvEscape :: "(jsnum \<Rightarrow> string) \<Rightarrow> cell \<Rightarrow> string" where
  "csvEscape numStr val =
     (if val = CNull then []
      else (let s = String numStr val
            in if str_includes s '','' \<or> str_includes s [CHR 0x0A] \<or> str_includes s [CHR 0x22]
               then [CHR 0x22] @ replace_quotes s @ [CHR 0x22]
               else s))"

text \<open>\<open>x || ""\<close> for an optional number: \<open>null\<close>, \<open>0\<close> and \<open>NaN\<close> are falsy.\<close>

fun or_empty :: "jsnum option \<Rightarrow> cell" where
  "or_empty None = CStr []"
| "or_empty (Some n) = (if truthy n then CNum n else CStr [])"

text \<open>\<open>xs.join(sep)\<close>.\<close>

fun join :: "string \<Rightarrow> string list \<Rightarrow> string" where
  "join sep [] = []"
| "join sep [x] = x"
| "join sep (x # y # ys) = x @ sep @ join sep (y # ys)"

definition csvCells :: "entry \<Rightarrow> cell list" where
  "csvCells t =
     [CStr (subject t), CStr (category t), CStr (provider t), CNum (maxMarks t),
      CNum (obtainedMarks t), or_empty (correctCount t), or_empty (incorrectCount t),
      or_empty (notAttemptedCount t), CNum (percentage t), or_empty (testRank t),
      or_empty (totalTestTakers t), or_empty (rankPercentile t), CStr (date t),
      CStr (notes t)]"

definition csvRow :: "(jsnum \<Rightarrow> string) \<Rightarrow> entry \<Rightarrow> string" where
  "csvRow numStr t = join '','' (map (csvEscape numStr) (csvCells t))"

definition headers :: "string list" where
  "headers = [''subject'', ''category'', ''provider'', ''maxMarks'', ''obtainedMarks'',
     ''correctCount'', ''incorrectCount'', ''notAttemptedCount'', ''percentage'', ''testRank'',
     ''totalTestTakers'', ''rankPercentile'', ''date'', ''notes'']"

text \<open>\<open>handleExportCSV\<close>: the text of the file.\<close>

definition handleExportCSV :: "(jsnum \<Rightarrow> string) \<Rightarrow> app \<Rightarrow> string" where
  "handleExportCSV numStr st =
     join [CHR 0x0A] (join '','' headers # map (csvRow numStr) (tests st))"

section \<open>Summary of the filtered tests\<close>
















section \<open>The analytics page: rank percentile and live statistics\<close>

text \<open>
  \<open>getPercentile\<close> of the analytics page. Its tests have the fields \<open>rank\<close> and
  \<open>totalStudents\<close> and store no percentile; the function is called when a row is shown.
\<close>

definition getPercentile :: "jsnum \<Rightarrow> jsnum \<Rightarrow> jsnum" where
  "getPercentile rank totalStudents =
     (if totalStudents = Num 0 \<or> jgt rank totalStudents \<or> rank = Num 0
         \<or> isNaN rank \<or> isNaN totalStudents
      then Num 0
      else jmul (jdiv (jsub totalStudents rank) totalStudents) (Num 100))"

text \<open>
  \<open>x.toFixed(1)\<close> gives a string with one decimal; it is modelled by the number the
  string denotes. The digits are those of the nearest multiple of 1/10 of the absolute
  value, the larger one on a tie.
\<close>

fun toFixed1 :: "jsnum \<Rightarrow> jsnum" where
  "toFixed1 NaN = NaN"
| "toFixed1 (Num x) =
     (if x < 0 then Num (- (of_int \<lfloor>(- x) * 10 + 1 / 2\<rfloor> / 10))
      else Num (of_int \<lfloor>x * 10 + 1 / 2\<rfloor> / 10))"

record stats_result =
  accuracy :: jsnum
  unattempted :: jsnum

text \<open>
  \<open>stats\<close> of \<open>TestEntryForm\<close>. The arguments are the values of
  \<open>parseFloat(formData.correct)\<close>, \<open>parseFloat(formData.wrong)\<close> and
  \<open>parseFloat(formData.totalQuestions)\<close>; an empty input gives \<open>NaN\<close>.
\<close>

definition stats :: "jsnum \<Rightarrow> jsnum \<Rightarrow> jsnum \<Rightarrow> stats_result" where
  "stats pfCorrect pfWrong pfTotal =
     (let correct = num_or pfCorrect (Num 0);
          wrong = num_or pfWrong (Num 0);
          totalQuestions = num_or pfTotal (Num 65);
          attemptedQuestions = jadd correct wrong;
          acc = (if jgt attemptedQuestions (Num 0)
                 then jmul (jdiv correct attemptedQuestions) (Num 100) else Num 0);
          unatt = jsub totalQuestions attemptedQuestions
      in \<lparr> accuracy = toFixed1 acc,
           unattempted = (if jge unatt (Num 0) then unatt else Num 0) \<rparr>)"

section \<open>The properties in the words of the specification\<close>

text \<open>
  The rounding rule in the words of the specification: round to the nearest integer,
  half up.
\<close>

definition round_half_up :: "rat \<Rightarrow> int" where
  "round_half_up x = (if frac x < 1 / 2 then \<lfloor>x\<rfloor> else \<lceil>x\<rceil>)"

text \<open>
  The percentage in the words of the specification: \<open>o / m * 10000\<close> rounded half up to
  an integer, divided by 100 (the double nearest to that quotient).
\<close>

definition spec_percentage :: "rat \<Rightarrow> rat \<Rightarrow> jsnum" where
  "spec_percentage ob m = Num (fl (of_int (round_half_up (ob / m * 10000)) / 100))"

text \<open>
  \<open>clear_of_tie d y\<close>: the distance from \<open>y\<close> to the nearest number of the form
  \<open>k + 1/2\<close>, where rounding half up changes its result, is at least \<open>d\<close>.
\<close>

definition clear_of_tie :: "rat \<Rightarrow> rat \<Rightarrow> bool" where
  "clear_of_tie d y = (d \<le> frac (y + 1 / 2) \<and> frac (y + 1 / 2) < 1 - d)"

text \<open>
  The rank percentile in the words of the specification: \<open>(1 - r / n) * 10000\<close> rounded
  half up to an integer, divided by 100 (the double nearest to that quotient).
\<close>

definition spec_percentile :: "rat \<Rightarrow> rat \<Rightarrow> jsnum" where
  "spec_percentile r n = Num (fl (of_int (round_half_up ((1 - r / n) * 10000)) / 100))"

text \<open>\<open>maxMarks > 0\<close> and \<open>0 <= obtainedMarks <= maxMarks\<close>.\<close>

definition spec_marks_ok :: "jsnum \<Rightarrow> jsnum \<Rightarrow> bool" where
  "spec_marks_ok mx obt = (jgt mx (Num 0) \<and> jge obt (Num 0) \<and> jle obt mx)"

text \<open>The rank pair as the code guarantees it: \<open>0 < testRank <= totalTestTakers\<close>.\<close>

definition positive_rank_ok :: "jsnum \<Rightarrow> jsnum \<Rightarrow> bool" where
  "positive_rank_ok rank totalTakers = (jgt rank (Num 0) \<and> jle rank totalTakers)"


text \<open>The three counts are stored as a unit: all \<open>null\<close> or none.\<close>

definition triple_as_unit :: "entry \<Rightarrow> bool" where
  "triple_as_unit t = ((correctCount t = None) = (incorrectCount t = None)
     \<and> (incorrectCount t = None) = (notAttemptedCount t = None))"

text \<open>
  The invariants the specification puts on a stored entry: the text fields \<open>id\<close>,
  \<open>subject\<close>, \<open>category\<close>, \<open>provider\<close> and \<open>date\<close> are present, the marks are in
  bounds, the percentage is the one computed from the marks, and the rank fields are both
  \<open>null\<close> (with a \<open>null\<close> percentile) or both valid (with the percentile computed
  from them).
\<close>

definition valid_entry :: "entry \<Rightarrow> bool" where
  "valid_entry t =
     (id' t \<noteq> [] \<and> subject t \<noteq> [] \<and> category t \<noteq> [] \<and> provider t \<noteq> [] \<and> date t \<noteq> []
      \<and> spec_marks_ok (maxMarks t) (obtainedMarks t)
      \<and> percentage t
          = jdiv (Math_round (jmul (jdiv (obtainedMarks t) (maxMarks t)) (Num 10000))) (Num 100)
      \<and> (case (testRank t, totalTestTakers t) of
            (None, None) \<Rightarrow> rankPercentile t = None
          | (Some r, Some n) \<Rightarrow> positive_rank_ok r n
              \<and> rankPercentile t
                  = Some (jdiv (Math_round (jmul (jsub (Num 1) (jdiv r n)) (Num 10000))) (Num 100))
          | _ \<Rightarrow> False))"

text \<open>A count is \<open>null\<close> or a positive number.\<close>

fun positive_or_null :: "jsnum option \<Rightarrow> bool" where
  "positive_or_null None = True"
| "positive_or_null (Some c) = jgt c (Num 0)"

definition positive_counts :: "entry \<Rightarrow> bool" where
  "positive_counts t = (positive_or_null (correctCount t) \<and> positive_or_null (incorrectCount t)
     \<and> positive_or_null (notAttemptedCount t))"

text \<open>
  The list is in the order the date sort leaves alone: no entry is followed by a newer one.
\<close>

definition newest_first :: "(string \<Rightarrow> jsnum) \<Rightarrow> entry list \<Rightarrow> bool" where
  "newest_first dv ts = sorted_wrt (\<lambda>a b. \<not> jgt (byDateDesc dv a b) (Num 0)) ts"

text \<open>
  The filter in the words of the specification: a conjunction of five predicates.
  Provider and subject match exactly, \<open>All\<close> meaning no filter; an empty date bound is
  no bound, and an entry is dropped by a bound only when its date is before the lower or
  after the upper one, so that a date equal to a bound is kept; the search text is a
  substring, letter case ignored, of the subject, the notes, the category or the provider.
\<close>

definition exact_provider :: "filters \<Rightarrow> entry \<Rightarrow> bool" where
  "exact_provider fs t = (filterProvider fs = ''All'' \<or> provider t = filterProvider fs)"

definition exact_subject :: "filters \<Rightarrow> entry \<Rightarrow> bool" where
  "exact_subject fs t = (filterSubject fs = ''All'' \<or> subject t = filterSubject fs)"

definition from_inclusive :: "(string \<Rightarrow> jsnum) \<Rightarrow> filters \<Rightarrow> entry \<Rightarrow> bool" where
  "from_inclusive dv fs t = (dateFrom fs = [] \<or> \<not> jlt (dv (date t)) (dv (dateFrom fs)))"

definition to_inclusive :: "(string \<Rightarrow> jsnum) \<Rightarrow> filters \<Rightarrow> entry \<Rightarrow> bool" where
  "to_inclusive dv fs t = (dateTo fs = [] \<or> \<not> jgt (dv (date t)) (dv (dateTo fs)))"

definition ci_substring :: "string \<Rightarrow> string \<Rightarrow> bool" where
  "ci_substring needle hay = sublist (toLowerCase needle) (toLowerCase hay)"

definition search_match :: "filters \<Rightarrow> entry \<Rightarrow> bool" where
  "search_match fs t = (search fs = [] \<or> ci_substring (search fs) (subject t)
     \<or> ci_substring (search fs) (notes t) \<or> ci_substring (search fs) (category t)
     \<or> ci_substring (search fs) (provider t))"

definition spec_filter :: "(string \<Rightarrow> jsnum) \<Rightarrow> filters \<Rightarrow> entry list \<Rightarrow> entry list" where
  "spec_filter dv fs ts =
     filter (\<lambda>t. exact_provider fs t \<and> exact_subject fs t \<and> from_inclusive dv fs t
                 \<and> to_inclusive dv fs t \<and> search_match fs t) ts"

text \<open>The provider predicate of the code: an entry without provider counts as \<open>Other\<close>.\<close>

definition provider_or_other :: "filters \<Rightarrow> entry \<Rightarrow> bool" where
  "provider_or_other fs t =
     (filterProvider fs = ''All'' \<or> str_or (provider t) ''Other'' = filterProvider fs)"

definition conjunctive_filter :: "(string \<Rightarrow> jsnum) \<Rightarrow> filters \<Rightarrow> entry list \<Rightarrow> entry list" where
  "conjunctive_filter dv fs ts =
     filter (\<lambda>t. provider_or_other fs t \<and> exact_subject fs t \<and> from_inclusive dv fs t
                 \<and> to_inclusive dv fs t \<and> search_match fs t) ts"

text \<open>The date of the entry and the bounds in use are valid dates.\<close>

definition valid_dates :: "(string \<Rightarrow> jsnum) \<Rightarrow> filters \<Rightarrow> entry \<Rightarrow> bool" where
  "valid_dates dv fs t =
     (\<not> isNaN (dv (date t))
      \<and> (dateFrom fs = [] \<or> \<not> isNaN (dv (dateFrom fs)))
      \<and> (dateTo fs = [] \<or> \<not> isNaN (dv (dateTo fs))))"

text \<open>
  The escaping rule in words: a value that contains a comma, a newline or a quote
  character is put between quote characters, each quote character inside doubled.
\<close>

definition needs_quotes :: "string \<Rightarrow> bool" where
  "needs_quotes s = (CHR '','' \<in> set s \<or> CHR 0x0A \<in> set s \<or> CHR 0x22 \<in> set s)"

definition quoted :: "string \<Rightarrow> string" where
  "quoted s = [CHR 0x22] @ concat (map (\<lambda>c. if c = CHR 0x22 then [c, c] else [c]) s) @ [CHR 0x22]"

text \<open>
  The CSV export in words. A value is written as it is, or quoted when the escaping rule
  asks for it; an optional number that is \<open>null\<close> or 0 (or \<open>NaN\<close>) is written as the
  empty field; a row is the fourteen fields in the order of the header, separated by
  commas; the file is the header line and one row per test, separated by newlines.
\<close>

definition spec_text :: "string \<Rightarrow> string" where
  "spec_text s = (if needs_quotes s then quoted s else s)"

definition spec_optional :: "(jsnum \<Rightarrow> string) \<Rightarrow> jsnum option \<Rightarrow> string" where
  "spec_optional numStr v =
     (case v of None \<Rightarrow> []
      | Some n \<Rightarrow> if n = Num 0 \<or> n = NaN then [] else spec_text (numStr n))"

definition spec_row :: "(jsnum \<Rightarrow> string) \<Rightarrow> entry \<Rightarrow> string" where
  "spec_row numStr t =
     spec_text (subject t) @ '','' @ spec_text (category t) @ '','' @ spec_text (provider t)
     @ '','' @ spec_text (numStr (maxMarks t)) @ '','' @ spec_text (numStr (obtainedMarks t))
     @ '','' @ spec_optional numStr (correctCount t)
     @ '','' @ spec_optional numStr (incorrectCount t)
     @ '','' @ spec_optional numStr (notAttemptedCount t)
     @ '','' @ spec_text (numStr (percentage t))
     @ '','' @ spec_optional numStr (testRank t)
     @ '','' @ spec_optional numStr (totalTestTakers t)
     @ '','' @ spec_optional numStr (rankPercentile t)
     @ '','' @ spec_text (date t) @ '','' @ spec_text (notes t)"

definition spec_header :: string where
  "spec_header = ''subject,category,provider,maxMarks,obtainedMarks,correctCount,''
     @ ''incorrectCount,notAttemptedCount,percentage,testRank,totalTestTakers,''
     @ ''rankPercentile,date,notes''"

fun spec_lines :: "string list \<Rightarrow> string" where
  "spec_lines [] = []"
| "spec_lines [l] = l"
| "spec_lines (l # m # ls) = l @ [CHR 0x0A] @ spec_lines (m # ls)"

definition spec_csv :: "(jsnum \<Rightarrow> string) \<Rightarrow> entry list \<Rightarrow> string" where
  "spec_csv numStr ts = spec_lines (spec_header # map (spec_row numStr) ts)"

text \<open>Rounding to one decimal, half away from zero.\<close>

definition round1 :: "rat \<Rightarrow> rat" where
  "round1 x = sgn x * of_int (round_half_up (\<bar>x\<bar> * 10)) / 10"

text \<open>The unattempted count as the specification states it.\<close>

definition spec_unattempted :: "rat \<Rightarrow> rat \<Rightarrow> rat \<Rightarrow> jsnum" where
  "spec_unattempted tq correct incorrect = Num (max 0 (tq - (correct + incorrect)))"











section \<open>Sample inputs\<close>

text \<open>The form as \<open>resetForm\<close> leaves it, with a fixed date.\<close>

definition blankForm :: form where
  "blankForm =
     \<lparr> form_id = None, form_subject = ''Engineering Mathematics'',
       form_category = ''Topic Wise'', form_provider = ''Ace Academy'',
       form_maxMarks = Blank, form_obtainedMarks = Blank,
       form_correctCount = Blank, form_incorrectCount = Blank,
       form_notAttemptedCount = Blank, form_testRank = Blank,
       form_totalTestTakers = Blank, form_date = ''2025-01-15'', form_notes = [] \<rparr>"

text \<open>Scenario 1 of the specification: 22.5 marks out of 30.\<close>

definition marksForm :: form where
  "marksForm = blankForm\<lparr>form_maxMarks := Typed (Num 30),
                          form_obtainedMarks := Typed (Num (45 / 2))\<rparr>"

text \<open>Scenario 2 of the specification: rank 15 among 500.\<close>

definition rankForm :: form where
  "rankForm = marksForm\<lparr>form_testRank := Typed (Num 15),
                         form_totalTestTakers := Typed (Num 500)\<rparr>"

definition sampleRaw :: raw where
  "sampleRaw = toRecord (makeEntry ''k3x9q2a'' ''2025-01-15'' rankForm)"

text \<open>
  A sample date reader for the examples: the eight digits of \<open>yyyy-mm-dd\<close> read as
  one number, which orders such dates as their time values do; \<open>NaN\<close> for any other
  string. The theorems are stated for every date function \<open>dv\<close>.
\<close>

definition sampleDate :: "string \<Rightarrow> jsnum" where
  "sampleDate s =
     (let ds = filter (\<lambda>c. c \<noteq> CHR ''-'') s
      in if length s = 10 \<and> s ! 4 = CHR ''-'' \<and> s ! 7 = CHR ''-'' \<and> length ds = 8
            \<and> list_all (\<lambda>c. 48 \<le> (of_char c :: nat) \<and> (of_char c :: nat) \<le> 57) ds
         then Num (of_nat (foldl (\<lambda>a c. 10 * a + (of_char c - 48)) 0 ds))
         else NaN)"

definition sampleUids :: "nat \<Rightarrow> string" where
  "sampleUids i = ''u'' @ replicate i (CHR ''x'') @ ''7f3k2m''"

definition emptyApp :: app where
  "emptyApp = \<lparr> tests = [], toastAlert = None \<rparr>"


text \<open>14.25 marks out of 200.\<close>

definition driftForm :: form where
  "driftForm = blankForm\<lparr>form_maxMarks := Typed (Num 200),
                          form_obtainedMarks := Typed (Num (57 / 4))\<rparr>"

text \<open>Rank 103 among 160.\<close>

definition driftRankForm :: form where
  "driftRankForm = marksForm\<lparr>form_testRank := Typed (Num 103),
                              form_totalTestTakers := Typed (Num 160)\<rparr>"



text \<open>Counts typed in as 50, 0 and 15.\<close>

definition countsForm :: form where
  "countsForm = marksForm\<lparr>form_correctCount := Typed (Num 50),
                           form_incorrectCount := Typed (Num 0),
                           form_notAttemptedCount := Typed (Num 15)\<rparr>"

text \<open>Counts typed in as 50, 10 and 5, and a rank of 15 among 500.\<close>

definition fullForm :: form where
  "fullForm = rankForm\<lparr>form_correctCount := Typed (Num 50),
                         form_incorrectCount := Typed (Num 10),
                         form_notAttemptedCount := Typed (Num 5),
                         form_date := ''2025-02-01''\<rparr>"

text \<open>An entry stored before the provider field existed, and a filter on \<open>Other\<close>.\<close>

definition legacyEntry :: entry where
  "legacyEntry = (makeEntry ''k3x9q2a'' ''2025-01-15'' marksForm)\<lparr>provider := []\<rparr>"

definition otherFilter :: filters where
  "otherFilter = \<lparr> filterProvider = ''Other'', filterSubject = ''All'', dateFrom = [],
                   dateTo = [], search = [] \<rparr>"

definition januaryMaths :: filters where
  "januaryMaths = \<lparr> filterProvider = ''Ace Academy'', filterSubject = ''Engineering Mathematics'',
                    dateFrom = ''2025-01-15'', dateTo = ''2025-01-31'', search = ''MATH'' \<rparr>"





section \<open>Rounding\<close>

lemma floor_half_up: "\<lfloor>x + 1 / 2\<rfloor> = round_half_up (x::rat)"
proof (cases "frac x < 1 / 2")
  case True
  have "\<lfloor>x + 1 / 2\<rfloor> = \<lfloor>x\<rfloor>"
  proof (rule floor_unique)
    show "of_int \<lfloor>x\<rfloor> \<le> x + 1 / 2"
      using of_int_floor_le [of x] by linarith
    show "x + 1 / 2 < of_int \<lfloor>x\<rfloor> + 1"
      using True by (simp add: frac_def)
  qed
  with True show ?thesis by (simp add: round_half_up_def)
next
  case False
  then have nz: "frac x \<noteq> 0" by linarith
  then have notint: "x \<notin> \<int>" using frac_eq_0_iff [of x] by blast
  have ne: "x \<noteq> of_int \<lfloor>x\<rfloor>"
    using notint Ints_of_int by metis
  have c: "\<lceil>x\<rceil> = \<lfloor>x\<rfloor> + 1"
    using ne by (simp add: ceiling_altdef)
  have "\<lfloor>x + 1 / 2\<rfloor> = \<lfloor>x\<rfloor> + 1"
  proof (rule floor_unique)
    show "of_int (\<lfloor>x\<rfloor> + 1) \<le> x + 1 / 2"
      using False by (simp add: frac_def)
    show "x + 1 / 2 < of_int (\<lfloor>x\<rfloor> + 1) + 1"
      using floor_correct [of x] by simp
  qed
  with False c show ?thesis by (simp add: round_half_up_def)
qed

section \<open>Rounding to the nearest double\<close>

lemma pow2_pos: "0 < pow2 e"
  by (simp add: pow2_def power_int_def)

lemma pow2_nat: "0 \<le> e \<Longrightarrow> pow2 e = 2 ^ nat e"
  by (simp add: pow2_def power_int_def)

lemma pow2_add: "pow2 (a + b) = pow2 a * pow2 b"
  by (simp add: pow2_def power_int_add)

lemma pow2_diff: "pow2 (a - b) = pow2 a / pow2 b"
  by (simp add: pow2_def power_int_diff)

lemma pow2_mono: "a \<le> b \<Longrightarrow> pow2 a \<le> pow2 b"
  by (simp add: pow2_def power_int_increasing)

lemma pow2_strict_mono: "a < b \<Longrightarrow> pow2 a < pow2 b"
  by (simp add: pow2_def power_int_strict_increasing)

lemma pow2_le_iff: "pow2 a \<le> pow2 b \<longleftrightarrow> a \<le> b"
  using pow2_mono [of a b] pow2_strict_mono [of b a] by (auto simp: not_le [symmetric])

lemma expo_le:
  assumes "x \<noteq> 0"
  shows "pow2 (expo x) \<le> \<bar>x\<bar>"
proof -
  obtain p q where pq: "quotient_of x = (p, q)" by (cases "quotient_of x")
  then have q: "0 < q" using quotient_of_denom_pos by blast
  from pq have x: "x = of_int p / of_int q" by (rule quotient_of_div)
  with assms q have p: "0 < \<bar>p\<bar>" by auto
  define e0 where "e0 = bitlen \<bar>p\<bar> - bitlen q"
  have ex: "expo x = (if pow2 e0 \<le> \<bar>x\<bar> then e0 else e0 - 1)"
    by (simp add: expo_def pq e0_def Let_def)
  show ?thesis
  proof (cases "pow2 e0 \<le> \<bar>x\<bar>")
    case True
    then show ?thesis by (simp add: ex)
  next
    case False
    from bitlen_bounds [OF p] have "2 ^ nat (bitlen \<bar>p\<bar> - 1) \<le> \<bar>p\<bar>" by simp
    then have "(of_int (2 ^ nat (bitlen \<bar>p\<bar> - 1)) :: rat) \<le> of_int \<bar>p\<bar>"
      by (simp only: of_int_le_iff)
    moreover have "1 \<le> bitlen \<bar>p\<bar>" using p by (simp add: bitlen_alt_def)
    ultimately have lo: "pow2 (bitlen \<bar>p\<bar> - 1) \<le> of_int \<bar>p\<bar>"
      by (simp add: pow2_nat)
    from bitlen_bounds [OF q] have "q < 2 ^ nat (bitlen q)" by simp
    then have "(of_int q :: rat) < of_int (2 ^ nat (bitlen q))"
      by (simp only: of_int_less_iff)
    then have hi: "of_int q < pow2 (bitlen q)"
      by (simp add: pow2_nat bitlen_nonneg)
    have "pow2 (e0 - 1) = pow2 (bitlen \<bar>p\<bar> - 1) / pow2 (bitlen q)"
      by (simp add: e0_def pow2_diff [symmetric] algebra_simps)
    also have "\<dots> \<le> of_int \<bar>p\<bar> / pow2 (bitlen q)"
      using lo pow2_pos [of "bitlen q"] by (simp add: divide_right_mono)
    also have "\<dots> \<le> of_int \<bar>p\<bar> / of_int q"
      using hi q p by (intro divide_left_mono) (auto simp: pow2_pos)
    also have "\<dots> = \<bar>x\<bar>"
      using q by (simp add: x abs_divide)
    finally show ?thesis using False by (simp add: ex)
  qed
qed

lemma expo_le_bound:
  assumes "x \<noteq> 0" and "\<bar>x\<bar> \<le> pow2 k"
  shows "expo x \<le> k"
proof -
  from expo_le [OF assms(1)] assms(2) have "pow2 (expo x) \<le> pow2 k" by linarith
  then show ?thesis by (simp add: pow2_le_iff)
qed

lemma round_even_err: "\<bar>of_int (round_even y) - y\<bar> \<le> 1 / 2"
proof -
  define n where "n = \<lfloor>y\<rfloor>"
  have b: "of_int n \<le> y" "y < of_int n + 1"
    unfolding n_def by linarith+
  have "round_even y = (if y - of_int n < 1 / 2 then n else if 1 / 2 < y - of_int n then n + 1
      else if even n then n else n + 1)"
    by (simp add: round_even_def n_def Let_def)
  with b show ?thesis by (auto simp: abs_if)
qed

lemma round_even_int: "round_even (of_int n) = n"
  by (simp add: round_even_def)



lemma fl_err:
  "\<bar>fl x - x\<bar> \<le> pow2 (max (expo x - 52) (- 1074)) / 2"
proof (cases "x = 0")
  case True
  then show ?thesis using pow2_pos [of "max (expo x - 52) (- 1074)"] by (simp add: fl_def)
next
  case False
  define u where "u = pow2 (max (expo x - 52) (- 1074))"
  have u: "0 < u" by (simp add: u_def pow2_pos)
  have "fl x - x = (of_int (round_even (x / u)) - x / u) * u"
    using False u by (simp add: fl_def u_def [symmetric] Let_def algebra_simps)
  then have "\<bar>fl x - x\<bar> = \<bar>of_int (round_even (x / u)) - x / u\<bar> * u"
    using u by (simp add: abs_mult)
  also have "\<dots> \<le> (1 / 2) * u"
    using round_even_err [of "x / u"] u by (intro mult_right_mono) auto
  finally show ?thesis by (simp add: u_def)
qed

lemma fl_err_bound:
  assumes "\<bar>x\<bar> \<le> pow2 k" and "- 1022 \<le> k"
  shows "\<bar>fl x - x\<bar> \<le> pow2 (k - 53)"
proof (cases "x = 0")
  case True
  then show ?thesis using pow2_pos [of "k - 53"] by (simp add: fl_def)
next
  case False
  from expo_le_bound [OF False assms(1)] assms(2)
  have "max (expo x - 52) (- 1074) \<le> k - 52" by simp
  then have "pow2 (max (expo x - 52) (- 1074)) \<le> pow2 (k - 52)" by (rule pow2_mono)
  moreover have "pow2 (k - 52) / 2 = pow2 (k - 53)"
    using pow2_diff [of "k - 52" 1] by (simp add: pow2_def)
  ultimately show ?thesis using fl_err [of x] by linarith
qed


lemma round_even_nonneg: "0 \<le> y \<Longrightarrow> 0 \<le> round_even y"
proof -
  assume "0 \<le> y"
  then have "0 \<le> \<lfloor>y\<rfloor>" by simp
  then show ?thesis unfolding round_even_def Let_def by auto
qed

lemma fl_nonneg: "0 \<le> x \<Longrightarrow> 0 \<le> fl x"
proof -
  assume x: "0 \<le> x"
  define u where "u = pow2 (max (expo x - 52) (- 1074))"
  have u: "0 < u" by (simp add: u_def pow2_pos)
  from x u have "0 \<le> x / u" by simp
  then have "0 \<le> round_even (x / u)" by (rule round_even_nonneg)
  then have "(0 :: rat) \<le> of_int (round_even (x / u))" by simp
  with u have "0 \<le> of_int (round_even (x / u)) * u" by simp
  then show ?thesis by (simp add: fl_def u_def Let_def)
qed






lemma fl_int:
  assumes "\<bar>n\<bar> < 2 ^ 53"
  shows "fl (of_int n) = of_int n"
proof (cases "n = 0")
  case True
  then show ?thesis by (simp add: fl_def)
next
  case False
  define x :: rat where "x = of_int n"
  have x0: "x \<noteq> 0" using False by (simp add: x_def)
  have lt: "\<bar>x\<bar> < pow2 53"
  proof -
    from assms have "(of_int \<bar>n\<bar> :: rat) < of_int (2 ^ 53)" by (simp only: of_int_less_iff)
    then show ?thesis by (simp add: x_def pow2_nat)
  qed
  have "expo x < 53"
  proof (rule ccontr)
    assume "\<not> expo x < 53"
    then have "pow2 53 \<le> pow2 (expo x)" by (intro pow2_mono) simp
    with expo_le [OF x0] lt show False by linarith
  qed
  define j where "j = max (expo x - 52) (- 1074)"
  have j: "j \<le> 0" using \<open>expo x < 53\<close> by (simp add: j_def)
  have "x / pow2 j = x * pow2 (- j)"
    using pow2_diff [of 0 j] by (simp add: pow2_def field_simps power_int_minus)
  also have "pow2 (- j) = of_int (2 ^ nat (- j))"
    using j by (simp add: pow2_nat)
  finally have "x / pow2 j = of_int (n * 2 ^ nat (- j))"
    by (simp add: x_def)
  then have "round_even (x / pow2 j) = n * 2 ^ nat (- j)"
    by (simp only: round_even_int)
  then have "of_int (round_even (x / pow2 j)) * pow2 j = x / pow2 j * pow2 j"
    using \<open>x / pow2 j = of_int (n * 2 ^ nat (- j))\<close> by simp
  also have "\<dots> = x" using pow2_pos [of j] by simp
  finally show ?thesis using x0 by (simp add: fl_def j_def x_def Let_def)
qed

lemma pow2_neg: "pow2 (- int n) = 1 / 2 ^ n"
  by (simp add: pow2_def power_int_minus field_simps)

lemma tie_clear:
  assumes "\<bar>x - y\<bar> \<le> d" and "clear_of_tie d y"
  shows "round_half_up x = round_half_up y"
proof -
  define n where "n = \<lfloor>y + 1 / 2\<rfloor>"
  have f: "y + 1 / 2 = of_int n + frac (y + 1 / 2)"
    by (simp add: frac_def n_def)
  have "\<lfloor>x + 1 / 2\<rfloor> = n"
  proof (rule floor_unique)
    show "of_int n \<le> x + 1 / 2"
      using assms f unfolding clear_of_tie_def by linarith
    show "x + 1 / 2 < of_int n + 1"
      using assms f unfolding clear_of_tie_def by linarith
  qed
  then show ?thesis by (simp add: floor_half_up [symmetric] n_def)
qed

lemma Math_round_Num: "Math_round (Num a) = Num (of_int (round_half_up a))"
  by (simp add: floor_half_up)

lemma pow2_m53: "pow2 (- 53) = 1 / 2 ^ 53"
  using pow2_neg [of 53] by simp

lemma pow2_m52: "pow2 (- 52) = 1 / 2 ^ 52"
  using pow2_neg [of 52] by simp

lemma pow2_m39: "pow2 (- 39) = 1 / 2 ^ 39"
  using pow2_neg [of 39] by simp

lemma pow2_14: "pow2 14 = 16384"
  using pow2_nat [of 14] by simp

lemma pow2_0: "pow2 0 = 1"
  by (simp add: pow2_def)

lemma pow2_1: "pow2 1 = 2"
  by (simp add: pow2_def)

lemma fl_unit_err:
  assumes "\<bar>q\<bar> \<le> 1"
  shows "\<bar>fl q - q\<bar> \<le> 1 / 2 ^ 53"
  using fl_err_bound [of q 0] assms by (simp add: pow2_0 pow2_m53)

lemma fl_scaled_err:
  assumes "\<bar>s\<bar> \<le> 16384"
  shows "\<bar>fl s - s\<bar> \<le> 1 / 2 ^ 39"
  using fl_err_bound [of s 14] assms by (simp add: pow2_14 pow2_m39)

lemma fl_two_err:
  assumes "\<bar>s\<bar> \<le> 2"
  shows "\<bar>fl s - s\<bar> \<le> 1 / 2 ^ 52"
  using fl_err_bound [of s 1] assms by (simp add: pow2_1 pow2_m52)

lemma pow2_7: "pow2 7 = 128"
  using pow2_nat [of 7] by simp

lemma pow2_m46: "pow2 (- 46) = 1 / 2 ^ 46"
  using pow2_neg [of 46] by simp

lemma fl_whole_sum:
  assumes "0 \<le> ci" and "0 \<le> wi" and "ci + wi < 2 ^ 53"
  shows "fl (of_int ci + of_int wi) = of_int (ci + wi)"
proof -
  from assms have "\<bar>ci + wi\<bar> < 2 ^ 53" by simp
  from fl_int [OF this] show ?thesis by simp
qed

lemma fl_whole_diff:
  assumes "0 \<le> a" and "a < 2 ^ 53" and "0 \<le> b" and "b < 2 ^ 53"
  shows "fl (of_int a - of_int b) = of_int (a - b)"
proof -
  from assms have "\<bar>a - b\<bar> < 2 ^ 53" by simp
  from fl_int [OF this] show ?thesis by simp
qed





section \<open>Percentage on the add path\<close>

lemma validation_marks:
  assumes "validation f = None"
  shows "\<exists>m ob. Number (form_maxMarks f) = Num m \<and> Number (form_obtainedMarks f) = Num ob
           \<and> 0 < m \<and> 0 \<le> ob \<and> ob \<le> m"
proof -
  obtain a b where ab: "a = Number (form_maxMarks f)" "b = Number (form_obtainedMarks f)"
    by simp
  from assms have 1: "truthy a \<and> \<not> jle a (Num 0)"
    unfolding validation_def Let_def ab by (auto split: if_splits)
  from assms have 2: "\<not> isNaN b \<and> \<not> jlt b (Num 0) \<and> \<not> jgt b a"
    unfolding validation_def Let_def ab by (auto split: if_splits)
  from 1 obtain m where m: "a = Num m" by (cases a) auto
  from 2 obtain ob where ob: "b = Num ob" by (cases b) auto
  from 1 2 m ob have "0 < m \<and> 0 \<le> ob \<and> ob \<le> m" by auto
  with m ob ab show ?thesis by auto
qed

lemma set_js_insert: "set (js_insert cmp x ys) = insert x (set ys)"
  by (induction ys) auto

lemma set_js_sort: "set (js_sort cmp xs) = set xs"
  by (induction xs) (auto simp: js_sort_def set_js_insert)

lemma length_js_insert: "length (js_insert cmp x ys) = Suc (length ys)"
  by (induction ys) auto

lemma length_js_sort: "length (js_sort cmp xs) = length xs"
  by (induction xs) (auto simp: js_sort_def length_js_insert)

lemma addOrReplace_set:
  "e \<in> set (addOrReplace dv e prev) \<and> set (addOrReplace dv e prev) \<subseteq> insert e (set prev)"
  by (auto simp: addOrReplace_def set_js_sort list_ex_iff)

lemma handleAddOrUpdate_accepted:
  assumes "validation f = None"
  shows "tests (handleAddOrUpdate dv uid today f st)
           = addOrReplace dv (makeEntry uid today f) (tests st)"
  using assms by (simp add: handleAddOrUpdate_def Let_def)


lemma makeEntry_marks:
  "maxMarks (makeEntry uid today f) = Number (form_maxMarks f)"
  "obtainedMarks (makeEntry uid today f) = Number (form_obtainedMarks f)"
  by (simp_all add: makeEntry_def Let_def)

lemma makeEntry_percentage:
  "percentage (makeEntry uid today f) =
     (if truthy (Number (form_maxMarks f))
      then jdiv (Math_round (jmul (jdiv (Number (form_obtainedMarks f))
                  (Number (form_maxMarks f))) (Num 10000))) (Num 100)
      else Num 0)"
  by (simp add: makeEntry_def Let_def)

lemma scaled_quotient_err:
  assumes "0 \<le> q" and "q \<le> 1"
  shows "\<bar>fl (fl q * 10000) - q * 10000\<bar> \<le> 1 / 10 ^ 11"
proof -
  have a: "\<bar>fl q - q\<bar> \<le> 1 / 2 ^ 53"
    using assms by (intro fl_unit_err) simp
  then have "\<bar>fl q * 10000\<bar> \<le> 16384"
    using assms by (simp add: abs_if split: if_splits)
  then have b: "\<bar>fl (fl q * 10000) - fl q * 10000\<bar> \<le> 1 / 2 ^ 39"
    by (rule fl_scaled_err)
  from a b show ?thesis by (simp add: abs_if split: if_splits)
qed

lemma percentage_value:
  assumes "Number (form_maxMarks f) = Num m" and "m \<noteq> 0"
    and "Number (form_obtainedMarks f) = Num ob"
  shows "percentage (makeEntry uid today f)
         = Num (fl (of_int (round_half_up (fl (fl (ob / m) * 10000))) / 100))"
  using assms by (simp add: makeEntry_percentage floor_half_up)

text \<open>
  C1, as the code has it. When the form passes validation with the marks \<open>m\<close> and \<open>ob\<close>,
  the add/update path stores an entry with these marks, \<open>0 < m\<close> and \<open>0 \<le> ob \<le> m\<close>.
  Its percentage is the double product \<open>(ob / m) * 10000\<close>, rounded half up to an integer
  and divided by 100. The double product is within \<open>10^-11\<close> of the exact
  \<open>ob / m * 10000\<close>, so the stored percentage is the one of the specification whenever
  the exact value is that far from a tie.
\<close>

theorem percentage_add_path:
  assumes "validation f = None"
    and "Number (form_maxMarks f) = Num m"
    and "Number (form_obtainedMarks f) = Num ob"
  shows "makeEntry uid today f \<in> set (tests (handleAddOrUpdate dv uid today f st))
     \<and> maxMarks (makeEntry uid today f) = Num m
     \<and> obtainedMarks (makeEntry uid today f) = Num ob
     \<and> 0 < m \<and> 0 \<le> ob \<and> ob \<le> m
     \<and> percentage (makeEntry uid today f)
         = Num (fl (of_int (round_half_up (fl (fl (ob / m) * 10000))) / 100))
     \<and> \<bar>fl (fl (ob / m) * 10000) - ob / m * 10000\<bar> \<le> 1 / 10 ^ 11
     \<and> (clear_of_tie (1 / 10 ^ 11) (ob / m * 10000) \<longrightarrow>
          percentage (makeEntry uid today f) = spec_percentage ob m)"
proof -
  from validation_marks [OF assms(1)] assms(2,3)
  have b: "0 < m \<and> 0 \<le> ob \<and> ob \<le> m" by auto
  have s: "makeEntry uid today f \<in> set (tests (handleAddOrUpdate dv uid today f st))"
    by (simp add: handleAddOrUpdate_accepted [OF assms(1)] addOrReplace_set)
  have k: "maxMarks (makeEntry uid today f) = Num m"
    "obtainedMarks (makeEntry uid today f) = Num ob"
    by (simp_all add: makeEntry_marks assms(2,3))
  have p: "percentage (makeEntry uid today f)
         = Num (fl (of_int (round_half_up (fl (fl (ob / m) * 10000))) / 100))"
    using b by (intro percentage_value assms(2,3)) simp
  have e: "\<bar>fl (fl (ob / m) * 10000) - ob / m * 10000\<bar> \<le> 1 / 10 ^ 11"
    using b by (intro scaled_quotient_err) simp_all
  have t: "percentage (makeEntry uid today f) = spec_percentage ob m"
    if "clear_of_tie (1 / 10 ^ 11) (ob / m * 10000)"
    using tie_clear [OF e that] by (simp only: p spec_percentage_def)
  from s k b p e t show ?thesis by blast
qed

theorem percentage_add_path_witness:
  "validation marksForm = None
   \<and> Number (form_maxMarks marksForm) = Num 30
   \<and> Number (form_obtainedMarks marksForm) = Num (45 / 2)
   \<and> clear_of_tie (1 / 10 ^ 11) ((45 / 2) / 30 * 10000)
   \<and> makeEntry ''k3x9q2a'' ''2025-01-15'' marksForm
       \<in> set (tests (handleAddOrUpdate sampleDate ''k3x9q2a'' ''2025-01-15'' marksForm emptyApp))
   \<and> percentage (makeEntry ''k3x9q2a'' ''2025-01-15'' marksForm) = Num 75"
proof -
  have v: "validation marksForm = None"
    by (simp add: validation_def marksForm_def blankForm_def trim_def is_ws_def hasRank_def)
  have m: "Number (form_maxMarks marksForm) = Num 30"
    by (simp add: marksForm_def blankForm_def)
  have ob: "Number (form_obtainedMarks marksForm) = Num (45 / 2)"
    by (simp add: marksForm_def blankForm_def)
  have c: "clear_of_tie (1 / 10 ^ 11) ((45 / 2) / 30 * 10000)"
    by code_simp
  have r: "spec_percentage (45 / 2) 30 = Num 75"
    by code_simp
  from percentage_add_path [OF v m ob, of "''k3x9q2a''" "''2025-01-15''" sampleDate emptyApp] c
  have "makeEntry ''k3x9q2a'' ''2025-01-15'' marksForm
       \<in> set (tests (handleAddOrUpdate sampleDate ''k3x9q2a'' ''2025-01-15'' marksForm emptyApp))
     \<and> percentage (makeEntry ''k3x9q2a'' ''2025-01-15'' marksForm) = spec_percentage (45 / 2) 30"
    by blast
  with v m ob c r show ?thesis by (simp only: simp_thms)
qed

text \<open>
  The claim C1 as written fails for 14.25 marks out of 200. The exact value of
  \<open>14.25 / 200 * 10000\<close> is 712.5, which rounds half up to 713, but the double product
  is just below 712.5, and the stored percentage is 7.12.
\<close>

theorem percentage_add_path_counterexample:
  "tests (handleAddOrUpdate sampleDate ''k3x9q2a'' ''2025-01-15'' driftForm emptyApp)
     = [makeEntry ''k3x9q2a'' ''2025-01-15'' driftForm]
   \<and> maxMarks (makeEntry ''k3x9q2a'' ''2025-01-15'' driftForm) = Num 200
   \<and> obtainedMarks (makeEntry ''k3x9q2a'' ''2025-01-15'' driftForm) = Num (57 / 4)
   \<and> round_half_up ((57 / 4) / 200 * 10000) = 713
   \<and> percentage (makeEntry ''k3x9q2a'' ''2025-01-15'' driftForm) = Num (fl (712 / 100))
   \<and> percentage (makeEntry ''k3x9q2a'' ''2025-01-15'' driftForm) \<noteq> Num (fl (713 / 100))
   \<and> percentage (makeEntry ''k3x9q2a'' ''2025-01-15'' driftForm) \<noteq> Num (713 / 100)"
proof -
  have v: "validation driftForm = None"
    by (simp add: validation_def driftForm_def blankForm_def trim_def is_ws_def hasRank_def)
  have t: "tests (handleAddOrUpdate sampleDate ''k3x9q2a'' ''2025-01-15'' driftForm emptyApp)
     = [makeEntry ''k3x9q2a'' ''2025-01-15'' driftForm]"
    by (simp add: handleAddOrUpdate_accepted [OF v] addOrReplace_def emptyApp_def js_sort_def)
  have k: "maxMarks (makeEntry ''k3x9q2a'' ''2025-01-15'' driftForm) = Num 200"
    "obtainedMarks (makeEntry ''k3x9q2a'' ''2025-01-15'' driftForm) = Num (57 / 4)"
    by (simp_all add: makeEntry_marks driftForm_def blankForm_def)
  have r: "round_half_up ((57 / 4) / 200 * 10000) = 713"
    by code_simp
  have f: "round_half_up (fl (fl ((57 / 4) / 200) * 10000)) = 712"
    by code_simp
  have "percentage (makeEntry ''k3x9q2a'' ''2025-01-15'' driftForm)
      = Num (fl (of_int (round_half_up (fl (fl ((57 / 4) / 200) * 10000))) / 100))"
    by (rule percentage_value) (simp_all add: driftForm_def blankForm_def)
  then have p: "percentage (makeEntry ''k3x9q2a'' ''2025-01-15'' driftForm) = Num (fl (712 / 100))"
    by (simp only: f) simp
  have n: "fl (712 / 100) \<noteq> fl (713 / 100)" "fl (712 / 100) \<noteq> 713 / 100"
    by code_simp+
  from t k r p n show ?thesis by simp
qed

section \<open>Rank percentile\<close>

lemma validation_rank:
  assumes "validation f = None" and "hasRank f"
  shows "\<exists>r n. Number (form_testRank f) = Num r \<and> Number (form_totalTestTakers f) = Num n
           \<and> 0 < r \<and> r \<le> n"
proof -
  obtain a b where ab: "a = Number (form_testRank f)" "b = Number (form_totalTestTakers f)"
    by simp
  from assms have 1: "truthy a \<and> \<not> jle a (Num 0)"
    unfolding validation_def Let_def ab by (auto split: if_splits)
  from assms have 2: "truthy b \<and> \<not> jle b (Num 0) \<and> \<not> jgt a b"
    unfolding validation_def Let_def ab by (auto split: if_splits)
  from 1 obtain r where r: "a = Num r" by (cases a) auto
  from 2 obtain n where n: "b = Num n" by (cases b) auto
  from 1 2 r n have "0 < r \<and> r \<le> n" by auto
  with r n ab show ?thesis by auto
qed

lemma makeEntry_rank:
  "testRank (makeEntry uid today f) = (if hasRank f then Some (Number (form_testRank f)) else None)"
  "totalTestTakers (makeEntry uid today f)
     = (if hasRank f then Some (Number (form_totalTestTakers f)) else None)"
  "rankPercentile (makeEntry uid today f) =
     (if hasRank f
      then Some (jdiv (Math_round (jmul (jsub (Num 1) (jdiv (Number (form_testRank f))
                   (Number (form_totalTestTakers f)))) (Num 10000))) (Num 100))
      else None)"
  by (simp_all add: makeEntry_def Let_def)

lemma normalizeImported_rank:
  "testRank (normalizeImported uid today d)
     = (if importHasRank d then Some (NumberJ (raw_testRank d)) else None)"
  "totalTestTakers (normalizeImported uid today d)
     = (if importHasRank d then Some (NumberJ (raw_totalTestTakers d)) else None)"
  "rankPercentile (normalizeImported uid today d) =
     (if importHasRank d
      then Some (jdiv (Math_round (jmul (jsub (Num 1) (jdiv (NumberJ (raw_testRank d))
                   (NumberJ (raw_totalTestTakers d)))) (Num 10000))) (Num 100))
      else None)"
  by (simp_all add: normalizeImported_def importHasRank_def Let_def)

lemma importHasRank_nums:
  assumes "importHasRank d"
  shows "\<exists>r n. NumberJ (raw_testRank d) = Num r \<and> NumberJ (raw_totalTestTakers d) = Num n
           \<and> 0 < r \<and> r \<le> n"
proof -
  obtain a b where ab: "a = NumberJ (raw_testRank d)" "b = NumberJ (raw_totalTestTakers d)"
    by simp
  from assms have 1: "jgt a (Num 0) \<and> jgt b (Num 0) \<and> jle a b"
    unfolding importHasRank_def ab by simp
  from 1 obtain r where r: "a = Num r" by (cases a) auto
  from 1 obtain n where n: "b = Num n" by (cases b) auto
  from 1 r n have "0 < r \<and> r \<le> n" by auto
  with r n ab show ?thesis by auto
qed

lemma rankForm_valid: "validation rankForm = None"
  by (simp add: validation_def rankForm_def marksForm_def blankForm_def trim_def is_ws_def hasRank_def)

lemma percentile_err:
  assumes "0 < r" and "r \<le> n"
  shows "\<bar>fl (fl (1 - fl (r / n)) * 10000) - (1 - r / n) * 10000\<bar> \<le> 1 / 10 ^ 11"
proof -
  define q where "q = r / n"
  have q: "0 \<le> q" "q \<le> 1" using assms by (simp_all add: q_def)
  have a: "\<bar>fl q - q\<bar> \<le> 1 / 2 ^ 53"
    using q by (intro fl_unit_err) simp
  then have "\<bar>1 - fl q\<bar> \<le> 2"
    using q by (simp add: abs_if split: if_splits)
  then have b: "\<bar>fl (1 - fl q) - (1 - fl q)\<bar> \<le> 1 / 2 ^ 52"
    by (rule fl_two_err)
  with a have "\<bar>fl (1 - fl q) * 10000\<bar> \<le> 16384"
    using q by (simp add: abs_if split: if_splits)
  then have c: "\<bar>fl (fl (1 - fl q) * 10000) - fl (1 - fl q) * 10000\<bar> \<le> 1 / 2 ^ 39"
    by (rule fl_scaled_err)
  from a b c have "\<bar>fl (fl (1 - fl q) * 10000) - (1 - q) * 10000\<bar> \<le> 1 / 10 ^ 11"
    by (simp add: abs_if split: if_splits)
  then show ?thesis by (simp only: q_def)
qed

lemma percentile_value:
  assumes "n \<noteq> 0"
  shows "jdiv (Math_round (jmul (jsub (Num 1) (jdiv (Num r) (Num n))) (Num 10000))) (Num 100)
           = Num (fl (of_int (round_half_up (fl (fl (1 - fl (r / n)) * 10000))) / 100))"
  using assms by (simp add: floor_half_up)

lemma normalizeAll_nth:
  assumes "None \<notin> set ds"
  shows "\<exists>es. normalizeAll uids today k ds = Some es \<and> length es = length ds
     \<and> (\<forall>i<length ds. \<forall>d. ds ! i = Some d \<longrightarrow> es ! i = normalizeImported (uids (k + i)) today d)"
  using assms
proof (induction ds arbitrary: k)
  case Nil
  then show ?case by simp
next
  case (Cons x ds)
  then obtain d0 where x: "x = Some d0" by (cases x) auto
  from Cons have "None \<notin> set ds" by simp
  from Cons.IH [OF this, of "Suc k"] obtain es where
    es: "normalizeAll uids today (Suc k) ds = Some es" "length es = length ds"
      "\<forall>i<length ds. \<forall>d. ds ! i = Some d \<longrightarrow> es ! i = normalizeImported (uids (Suc k + i)) today d"
    by blast
  have "\<forall>i<length (x # ds). \<forall>d. (x # ds) ! i = Some d \<longrightarrow>
      (normalizeImported (uids k) today d0 # es) ! i = normalizeImported (uids (k + i)) today d"
  proof (intro allI impI)
    fix i d
    assume i: "i < length (x # ds)" and d: "(x # ds) ! i = Some d"
    show "(normalizeImported (uids k) today d0 # es) ! i = normalizeImported (uids (k + i)) today d"
    proof (cases i)
      case 0
      with d x show ?thesis by simp
    next
      case (Suc j)
      with i d es(3) show ?thesis by simp
    qed
  qed
  with es x show ?case by simp
qed

lemma handleImportJSON_stores:
  assumes "None \<notin> set ds" and "i < length ds" and "ds ! i = Some d"
  shows "normalizeImported (uids i) today d
           \<in> set (tests (handleImportJSON dv uids today (JArray ds) st))"
proof -
  from normalizeAll_nth [OF assms(1), of uids today 0] obtain es where
    es: "normalizeAll uids today 0 ds = Some es" "length es = length ds"
      "\<forall>i<length ds. \<forall>d. ds ! i = Some d \<longrightarrow> es ! i = normalizeImported (uids (0 + i)) today d"
    by blast
  from es(3) assms(2,3) have "es ! i = normalizeImported (uids i) today d" by simp
  with es(2) assms(2) have "normalizeImported (uids i) today d \<in> set es"
    by (metis nth_mem)
  then show ?thesis
    by (simp add: handleImportJSON_def es(1) set_js_sort)
qed

text \<open>
  C2, as the code has it. On the add/update path a form that passes validation with
  both rank fields filled in, as \<open>r\<close> and \<open>n\<close>, stores an entry with this pair, and
  \<open>0 < r \<le> n\<close>; on import a record whose rank pair \<open>r\<close>, \<open>n\<close> satisfies
  \<open>0 < r \<le> n\<close> stores an entry with this pair. In both cases the rank percentile is the
  double value of \<open>(1 - r / n) * 10000\<close>, rounded half up to an integer and divided by
  100. The double value is within \<open>10^-11\<close> of the exact one, so the stored percentile
  is the one of the specification whenever the exact value is that far from a tie. In
  every other case the entry is stored with \<open>null\<close> for both rank fields and for the
  rank percentile.
\<close>

theorem rankPercentile_stored:
  "(validation f = None \<longrightarrow>
      makeEntry uid today f \<in> set (tests (handleAddOrUpdate dv uid today f st)))
   \<and> (validation f = None \<and> hasRank f
        \<and> Number (form_testRank f) = Num r \<and> Number (form_totalTestTakers f) = Num n \<longrightarrow>
      0 < r \<and> r \<le> n
      \<and> testRank (makeEntry uid today f) = Some (Num r)
      \<and> totalTestTakers (makeEntry uid today f) = Some (Num n)
      \<and> rankPercentile (makeEntry uid today f)
          = Some (Num (fl (of_int (round_half_up (fl (fl (1 - fl (r / n)) * 10000))) / 100)))
      \<and> (clear_of_tie (1 / 10 ^ 11) ((1 - r / n) * 10000) \<longrightarrow>
           rankPercentile (makeEntry uid today f) = Some (spec_percentile r n)))
   \<and> (\<not> hasRank f \<longrightarrow>
      testRank (makeEntry uid today f) = None
      \<and> totalTestTakers (makeEntry uid today f) = None
      \<and> rankPercentile (makeEntry uid today f) = None)
   \<and> (None \<notin> set ds \<and> i < length ds \<and> ds ! i = Some d \<longrightarrow>
      normalizeImported (uids i) today d
        \<in> set (tests (handleImportJSON dv uids today (JArray ds) st)))
   \<and> (NumberJ (raw_testRank d) = Num r' \<and> NumberJ (raw_totalTestTakers d) = Num n'
        \<and> 0 < r' \<and> r' \<le> n' \<longrightarrow>
      testRank (normalizeImported (uids i) today d) = Some (Num r')
      \<and> totalTestTakers (normalizeImported (uids i) today d) = Some (Num n')
      \<and> rankPercentile (normalizeImported (uids i) today d)
          = Some (Num (fl (of_int (round_half_up (fl (fl (1 - fl (r' / n')) * 10000))) / 100)))
      \<and> (clear_of_tie (1 / 10 ^ 11) ((1 - r' / n') * 10000) \<longrightarrow>
           rankPercentile (normalizeImported (uids i) today d) = Some (spec_percentile r' n')))
   \<and> (\<not> importHasRank d \<longrightarrow>
      testRank (normalizeImported (uids i) today d) = None
      \<and> totalTestTakers (normalizeImported (uids i) today d) = None
      \<and> rankPercentile (normalizeImported (uids i) today d) = None)
   \<and> (0 < r \<and> r \<le> n \<longrightarrow>
      \<bar>fl (fl (1 - fl (r / n)) * 10000) - (1 - r / n) * 10000\<bar> \<le> 1 / 10 ^ 11)"
proof -
  have 1: "makeEntry uid today f \<in> set (tests (handleAddOrUpdate dv uid today f st))"
    if "validation f = None"
    by (simp add: handleAddOrUpdate_accepted [OF that] addOrReplace_set)
  have 2: "0 < r \<and> r \<le> n
      \<and> testRank (makeEntry uid today f) = Some (Num r)
      \<and> totalTestTakers (makeEntry uid today f) = Some (Num n)
      \<and> rankPercentile (makeEntry uid today f)
          = Some (Num (fl (of_int (round_half_up (fl (fl (1 - fl (r / n)) * 10000))) / 100)))
      \<and> (clear_of_tie (1 / 10 ^ 11) ((1 - r / n) * 10000) \<longrightarrow>
           rankPercentile (makeEntry uid today f) = Some (spec_percentile r n))"
    if h: "validation f = None \<and> hasRank f
        \<and> Number (form_testRank f) = Num r \<and> Number (form_totalTestTakers f) = Num n"
  proof -
    from h have v: "validation f = None" and hr: "hasRank f" by simp_all
    from validation_rank [OF v hr] h have b: "0 < r" "r \<le> n" by auto
    then have n0: "n \<noteq> 0" by simp
    have p: "rankPercentile (makeEntry uid today f)
          = Some (Num (fl (of_int (round_half_up (fl (fl (1 - fl (r / n)) * 10000))) / 100)))"
      using h by (simp only: makeEntry_rank if_True percentile_value [OF n0])
    have "rankPercentile (makeEntry uid today f) = Some (spec_percentile r n)"
      if "clear_of_tie (1 / 10 ^ 11) ((1 - r / n) * 10000)"
      using tie_clear [OF percentile_err [OF b] that] by (simp only: p spec_percentile_def)
    with b p h show ?thesis by (simp add: makeEntry_rank)
  qed
  have 3: "testRank (makeEntry uid today f) = None
      \<and> totalTestTakers (makeEntry uid today f) = None
      \<and> rankPercentile (makeEntry uid today f) = None"
    if "\<not> hasRank f"
    using that by (simp add: makeEntry_rank)
  have 4: "normalizeImported (uids i) today d
        \<in> set (tests (handleImportJSON dv uids today (JArray ds) st))"
    if "None \<notin> set ds \<and> i < length ds \<and> ds ! i = Some d"
    using that by (intro handleImportJSON_stores) simp_all
  have 5: "testRank (normalizeImported (uids i) today d) = Some (Num r')
      \<and> totalTestTakers (normalizeImported (uids i) today d) = Some (Num n')
      \<and> rankPercentile (normalizeImported (uids i) today d)
          = Some (Num (fl (of_int (round_half_up (fl (fl (1 - fl (r' / n')) * 10000))) / 100)))
      \<and> (clear_of_tie (1 / 10 ^ 11) ((1 - r' / n') * 10000) \<longrightarrow>
           rankPercentile (normalizeImported (uids i) today d) = Some (spec_percentile r' n'))"
    if h: "NumberJ (raw_testRank d) = Num r' \<and> NumberJ (raw_totalTestTakers d) = Num n'
        \<and> 0 < r' \<and> r' \<le> n'"
  proof -
    from h have b: "0 < r'" "r' \<le> n'" by simp_all
    then have n0: "n' \<noteq> 0" by simp
    from h have hr: "importHasRank d" by (simp add: importHasRank_def)
    have p: "rankPercentile (normalizeImported (uids i) today d)
          = Some (Num (fl (of_int (round_half_up (fl (fl (1 - fl (r' / n')) * 10000))) / 100)))"
      using h hr by (simp only: normalizeImported_rank if_True percentile_value [OF n0])
    have "rankPercentile (normalizeImported (uids i) today d) = Some (spec_percentile r' n')"
      if "clear_of_tie (1 / 10 ^ 11) ((1 - r' / n') * 10000)"
      using tie_clear [OF percentile_err [OF b] that] by (simp only: p spec_percentile_def)
    with p h hr show ?thesis by (simp add: normalizeImported_rank)
  qed
  have 6: "testRank (normalizeImported (uids i) today d) = None
      \<and> totalTestTakers (normalizeImported (uids i) today d) = None
      \<and> rankPercentile (normalizeImported (uids i) today d) = None"
    if "\<not> importHasRank d"
    using that by (simp add: normalizeImported_rank)
  have 7: "\<bar>fl (fl (1 - fl (r / n)) * 10000) - (1 - r / n) * 10000\<bar> \<le> 1 / 10 ^ 11"
    if "0 < r \<and> r \<le> n"
    using that by (intro percentile_err) simp_all
  from 1 2 3 4 5 6 7 show ?thesis by blast
qed

lemma sampleRaw_rank:
  "NumberJ (raw_testRank sampleRaw) = Num 15" "NumberJ (raw_totalTestTakers sampleRaw) = Num 500"
  by (simp_all add: sampleRaw_def toRecord_def makeEntry_rank hasRank_def rankForm_def
      marksForm_def blankForm_def)

lemma p97: "spec_percentile 15 500 = Num 97"
  by code_simp

theorem rankPercentile_stored_witness:
  "validation rankForm = None \<and> hasRank rankForm
   \<and> Number (form_testRank rankForm) = Num 15 \<and> Number (form_totalTestTakers rankForm) = Num 500
   \<and> clear_of_tie (1 / 10 ^ 11) ((1 - 15 / 500) * 10000)
   \<and> makeEntry ''k3x9q2a'' ''2025-01-15'' rankForm
        \<in> set (tests (handleAddOrUpdate sampleDate ''k3x9q2a'' ''2025-01-15'' rankForm emptyApp))
   \<and> rankPercentile (makeEntry ''k3x9q2a'' ''2025-01-15'' rankForm) = Some (Num 97)
   \<and> \<not> hasRank marksForm
   \<and> rankPercentile (makeEntry ''k3x9q2a'' ''2025-01-15'' marksForm) = None
   \<and> None \<notin> set [Some sampleRaw] \<and> 0 < length [Some sampleRaw]
   \<and> [Some sampleRaw] ! 0 = Some sampleRaw
   \<and> normalizeImported (sampleUids 0) ''2025-01-15'' sampleRaw
        \<in> set (tests (handleImportJSON sampleDate sampleUids ''2025-01-15''
                   (JArray [Some sampleRaw]) emptyApp))
   \<and> rankPercentile (normalizeImported (sampleUids 0) ''2025-01-15'' sampleRaw) = Some (Num 97)
   \<and> \<not> importHasRank (toRecord (makeEntry ''k3x9q2a'' ''2025-01-15'' marksForm))
   \<and> rankPercentile (normalizeImported (sampleUids 0) ''2025-01-15''
        (toRecord (makeEntry ''k3x9q2a'' ''2025-01-15'' marksForm))) = None"
proof -
  have v: "validation rankForm = None" by (rule rankForm_valid)
  have h: "hasRank rankForm" "\<not> hasRank marksForm"
    by (simp_all add: hasRank_def rankForm_def marksForm_def blankForm_def)
  have k: "Number (form_testRank rankForm) = Num 15"
    "Number (form_totalTestTakers rankForm) = Num 500"
    by (simp_all add: rankForm_def marksForm_def blankForm_def)
  have c: "clear_of_tie (1 / 10 ^ 11) ((1 - 15 / 500) * 10000)"
    by code_simp
  have b: "(0::rat) < 15 \<and> (15::rat) \<le> 500" by simp
  have l: "None \<notin> set [Some sampleRaw] \<and> 0 < length [Some sampleRaw]
      \<and> [Some sampleRaw] ! 0 = Some sampleRaw"
    by simp
  have n: "\<not> importHasRank (toRecord (makeEntry ''k3x9q2a'' ''2025-01-15'' marksForm))"
    using h by (simp add: importHasRank_def toRecord_def makeEntry_rank)
  note A = rankPercentile_stored [of rankForm "''k3x9q2a''" "''2025-01-15''" sampleDate emptyApp
      15 500 "[Some sampleRaw]" 0 sampleRaw sampleUids 15 500]
  note B = rankPercentile_stored [of marksForm "''k3x9q2a''" "''2025-01-15''" sampleDate emptyApp
      15 500 "[Some (toRecord (makeEntry ''k3x9q2a'' ''2025-01-15'' marksForm))]" 0
      "toRecord (makeEntry ''k3x9q2a'' ''2025-01-15'' marksForm)" sampleUids 15 500]
  from A v h(1) k c have 1: "makeEntry ''k3x9q2a'' ''2025-01-15'' rankForm
        \<in> set (tests (handleAddOrUpdate sampleDate ''k3x9q2a'' ''2025-01-15'' rankForm emptyApp))
      \<and> rankPercentile (makeEntry ''k3x9q2a'' ''2025-01-15'' rankForm) = Some (spec_percentile 15 500)"
    by blast
  from A l sampleRaw_rank b c have 2: "normalizeImported (sampleUids 0) ''2025-01-15'' sampleRaw
        \<in> set (tests (handleImportJSON sampleDate sampleUids ''2025-01-15''
                   (JArray [Some sampleRaw]) emptyApp))
      \<and> rankPercentile (normalizeImported (sampleUids 0) ''2025-01-15'' sampleRaw)
          = Some (spec_percentile 15 500)"
    by blast
  from B h(2) n have 3: "rankPercentile (makeEntry ''k3x9q2a'' ''2025-01-15'' marksForm) = None
      \<and> rankPercentile (normalizeImported (sampleUids 0) ''2025-01-15''
        (toRecord (makeEntry ''k3x9q2a'' ''2025-01-15'' marksForm))) = None"
    by blast
  from v h k c l n 1 2 3 show ?thesis by (simp only: p97 simp_thms)
qed

text \<open>
  The claim C2 as written fails for rank 103 among 160. The exact value of
  \<open>(1 - 103 / 160) * 10000\<close> is 3562.5, which rounds half up to 3563, but the double
  value is just below 3562.5, and the stored rank percentile is 35.62.
\<close>

theorem rankPercentile_stored_counterexample:
  "tests (handleAddOrUpdate sampleDate ''k3x9q2a'' ''2025-01-15'' driftRankForm emptyApp)
     = [makeEntry ''k3x9q2a'' ''2025-01-15'' driftRankForm]
   \<and> testRank (makeEntry ''k3x9q2a'' ''2025-01-15'' driftRankForm) = Some (Num 103)
   \<and> totalTestTakers (makeEntry ''k3x9q2a'' ''2025-01-15'' driftRankForm) = Some (Num 160)
   \<and> round_half_up ((1 - 103 / 160) * 10000) = 3563
   \<and> rankPercentile (makeEntry ''k3x9q2a'' ''2025-01-15'' driftRankForm)
       = Some (Num (fl (3562 / 100)))
   \<and> rankPercentile (makeEntry ''k3x9q2a'' ''2025-01-15'' driftRankForm)
       \<noteq> Some (Num (fl (3563 / 100)))
   \<and> rankPercentile (makeEntry ''k3x9q2a'' ''2025-01-15'' driftRankForm)
       \<noteq> Some (Num (3563 / 100))"
proof -
  have v: "validation driftRankForm = None"
    by (simp add: validation_def driftRankForm_def marksForm_def blankForm_def trim_def
        is_ws_def hasRank_def)
  have h: "hasRank driftRankForm"
    by (simp add: hasRank_def driftRankForm_def marksForm_def blankForm_def)
  have t: "tests (handleAddOrUpdate sampleDate ''k3x9q2a'' ''2025-01-15'' driftRankForm emptyApp)
     = [makeEntry ''k3x9q2a'' ''2025-01-15'' driftRankForm]"
    by (simp add: handleAddOrUpdate_accepted [OF v] addOrReplace_def emptyApp_def js_sort_def)
  have k: "Number (form_testRank driftRankForm) = Num 103"
    "Number (form_totalTestTakers driftRankForm) = Num 160"
    by (simp_all add: driftRankForm_def marksForm_def blankForm_def)
  have s: "testRank (makeEntry ''k3x9q2a'' ''2025-01-15'' driftRankForm) = Some (Num 103)"
    "totalTestTakers (makeEntry ''k3x9q2a'' ''2025-01-15'' driftRankForm) = Some (Num 160)"
    using h k by (simp_all add: makeEntry_rank)
  have r: "round_half_up ((1 - 103 / 160) * 10000) = 3563"
    by code_simp
  have f: "round_half_up (fl (fl (1 - fl (103 / 160)) * 10000)) = 3562"
    by code_simp
  have "(160::rat) \<noteq> 0" by simp
  from percentile_value [OF this, of 103]
  have "rankPercentile (makeEntry ''k3x9q2a'' ''2025-01-15'' driftRankForm)
      = Some (Num (fl (of_int (round_half_up (fl (fl (1 - fl (103 / 160)) * 10000))) / 100)))"
    using h by (simp only: makeEntry_rank k if_True)
  then have p: "rankPercentile (makeEntry ''k3x9q2a'' ''2025-01-15'' driftRankForm)
      = Some (Num (fl (3562 / 100)))"
    by (simp only: f) simp
  have n: "fl (3562 / 100) \<noteq> fl (3563 / 100)" "fl (3562 / 100) \<noteq> 3563 / 100"
    by code_simp+
  from t s r p n show ?thesis by simp
qed

lemma getPercentile_scenario: "getPercentile (Num 15) (Num 500) = Num 97"
proof -
  have "fl (fl (fl (500 - 15) / 500) * 100) = 97" by code_simp
  then show ?thesis by (simp add: getPercentile_def)
qed

section \<open>Validation on the add path\<close>

lemma spec_marks_ok_iff:
  "spec_marks_ok a b \<longleftrightarrow> (\<exists>m ob. a = Num m \<and> b = Num ob \<and> 0 < m \<and> 0 \<le> ob \<and> ob \<le> m)"
  by (cases a; cases b) (auto simp: spec_marks_ok_def)

lemma positive_rank_ok_iff:
  "positive_rank_ok a b \<longleftrightarrow> (\<exists>r n. a = Num r \<and> b = Num n \<and> 0 < r \<and> r \<le> n)"
  by (cases a; cases b) (auto simp: positive_rank_ok_def)







section \<open>The three counts\<close>

lemma makeEntry_counts:
  "correctCount (makeEntry uid today f)
     = (if hasCounts f then Some (Number (form_correctCount f)) else None)"
  "incorrectCount (makeEntry uid today f)
     = (if hasCounts f then Some (Number (form_incorrectCount f)) else None)"
  "notAttemptedCount (makeEntry uid today f)
     = (if hasCounts f then Some (Number (form_notAttemptedCount f)) else None)"
  by (simp_all add: makeEntry_def Let_def)

lemma normalizeImported_counts:
  "correctCount (normalizeImported uid today d)
     = (case NumberJ (raw_correctCount d) of NaN \<Rightarrow> None
        | Num r \<Rightarrow> if 0 < r then Some (Num r) else None)"
  "incorrectCount (normalizeImported uid today d)
     = (case NumberJ (raw_incorrectCount d) of NaN \<Rightarrow> None
        | Num r \<Rightarrow> if 0 < r then Some (Num r) else None)"
  "notAttemptedCount (normalizeImported uid today d)
     = (case NumberJ (raw_notAttemptedCount d) of NaN \<Rightarrow> None
        | Num r \<Rightarrow> if 0 < r then Some (Num r) else None)"
  by (simp_all add: normalizeImported_def Let_def split: jsnum.split)

text \<open>
  C4, as the code has it. On the add/update path the three counts are stored as a unit:
  all \<open>null\<close> when none of the three inputs is filled in, and otherwise all three as
  numbers, so that a typed 0 is stored as 0. On import each count is stored on its own:
  as the number when that number is positive, and as \<open>null\<close> otherwise, a 0 included.
\<close>

theorem counts_storage:
  "triple_as_unit (makeEntry uid today f)
   \<and> (\<not> hasCounts f \<longrightarrow> correctCount (makeEntry uid today f) = None
        \<and> incorrectCount (makeEntry uid today f) = None
        \<and> notAttemptedCount (makeEntry uid today f) = None)
   \<and> (hasCounts f \<longrightarrow> correctCount (makeEntry uid today f) = Some (Number (form_correctCount f))
        \<and> incorrectCount (makeEntry uid today f) = Some (Number (form_incorrectCount f))
        \<and> notAttemptedCount (makeEntry uid today f) = Some (Number (form_notAttemptedCount f)))
   \<and> correctCount (normalizeImported uid' today' d)
       = (case NumberJ (raw_correctCount d) of NaN \<Rightarrow> None
          | Num r \<Rightarrow> if 0 < r then Some (Num r) else None)
   \<and> incorrectCount (normalizeImported uid' today' d)
       = (case NumberJ (raw_incorrectCount d) of NaN \<Rightarrow> None
          | Num r \<Rightarrow> if 0 < r then Some (Num r) else None)
   \<and> notAttemptedCount (normalizeImported uid' today' d)
       = (case NumberJ (raw_notAttemptedCount d) of NaN \<Rightarrow> None
          | Num r \<Rightarrow> if 0 < r then Some (Num r) else None)"
proof -
  have unit: "triple_as_unit (makeEntry uid today f)"
    by (simp add: triple_as_unit_def makeEntry_counts)
  have none: "correctCount (makeEntry uid today f) = None
      \<and> incorrectCount (makeEntry uid today f) = None
      \<and> notAttemptedCount (makeEntry uid today f) = None"
    if "\<not> hasCounts f"
    using that by (simp add: makeEntry_counts)
  have all: "correctCount (makeEntry uid today f) = Some (Number (form_correctCount f))
      \<and> incorrectCount (makeEntry uid today f) = Some (Number (form_incorrectCount f))
      \<and> notAttemptedCount (makeEntry uid today f) = Some (Number (form_notAttemptedCount f))"
    if "hasCounts f"
    using that by (simp add: makeEntry_counts)
  from unit none all normalizeImported_counts [of uid' today' d] show ?thesis
    by blast
qed

theorem counts_storage_witness:
  "hasCounts countsForm \<and> \<not> hasCounts marksForm
   \<and> correctCount (makeEntry ''k3x9q2a'' ''2025-01-15'' countsForm) = Some (Num 50)
   \<and> incorrectCount (makeEntry ''k3x9q2a'' ''2025-01-15'' countsForm) = Some (Num 0)
   \<and> notAttemptedCount (makeEntry ''k3x9q2a'' ''2025-01-15'' countsForm) = Some (Num 15)
   \<and> incorrectCount (makeEntry ''k3x9q2a'' ''2025-01-15'' marksForm) = None
   \<and> incorrectCount (normalizeImported ''k3x9q2a'' ''2025-01-15''
        (toRecord (makeEntry ''k3x9q2a'' ''2025-01-15'' countsForm))) = None"
proof -
  have h: "hasCounts countsForm" "\<not> hasCounts marksForm"
    by (simp_all add: hasCounts_def countsForm_def marksForm_def blankForm_def)
  note t1 = counts_storage [of "''k3x9q2a''" "''2025-01-15''" countsForm "''k3x9q2a''" "''2025-01-15''"
      "toRecord (makeEntry ''k3x9q2a'' ''2025-01-15'' countsForm)"]
  note t2 = counts_storage [of "''k3x9q2a''" "''2025-01-15''" marksForm "''k3x9q2a''" "''2025-01-15''"
      "toRecord (makeEntry ''k3x9q2a'' ''2025-01-15'' countsForm)"]
  from t1 h have a: "correctCount (makeEntry ''k3x9q2a'' ''2025-01-15'' countsForm) = Some (Num 50)
   \<and> incorrectCount (makeEntry ''k3x9q2a'' ''2025-01-15'' countsForm) = Some (Num 0)
   \<and> notAttemptedCount (makeEntry ''k3x9q2a'' ''2025-01-15'' countsForm) = Some (Num 15)"
    by (simp add: countsForm_def marksForm_def blankForm_def)
  from t2 h have b: "incorrectCount (makeEntry ''k3x9q2a'' ''2025-01-15'' marksForm) = None"
    by blast
  from a have r: "raw_incorrectCount (toRecord (makeEntry ''k3x9q2a'' ''2025-01-15'' countsForm))
      = JNum 0"
    by (simp add: toRecord_def)
  from t1 have "incorrectCount (normalizeImported ''k3x9q2a'' ''2025-01-15''
        (toRecord (makeEntry ''k3x9q2a'' ''2025-01-15'' countsForm)))
       = (case NumberJ (raw_incorrectCount (toRecord (makeEntry ''k3x9q2a'' ''2025-01-15'' countsForm)))
          of NaN \<Rightarrow> None | Num r \<Rightarrow> if 0 < r then Some (Num r) else None)"
    by blast
  then have c: "incorrectCount (normalizeImported ''k3x9q2a'' ''2025-01-15''
        (toRecord (makeEntry ''k3x9q2a'' ''2025-01-15'' countsForm))) = None"
    by (simp add: r)
  from h a b c show ?thesis by blast
qed

text \<open>
  The claim C4 as written fails on import: the counts 50, 0, 15 stored by the add path
  come back from an export and import as 50, \<open>null\<close>, 15.
\<close>

theorem counts_storage_counterexample:
  "incorrectCount (makeEntry ''k3x9q2a'' ''2025-01-15'' countsForm) = Some (Num 0)
   \<and> correctCount (normalizeImported ''k3x9q2a'' ''2025-01-15''
        (toRecord (makeEntry ''k3x9q2a'' ''2025-01-15'' countsForm))) = Some (Num 50)
   \<and> incorrectCount (normalizeImported ''k3x9q2a'' ''2025-01-15''
        (toRecord (makeEntry ''k3x9q2a'' ''2025-01-15'' countsForm))) = None
   \<and> \<not> triple_as_unit (normalizeImported ''k3x9q2a'' ''2025-01-15''
        (toRecord (makeEntry ''k3x9q2a'' ''2025-01-15'' countsForm)))"
proof -
  have h: "hasCounts countsForm"
    by (simp add: hasCounts_def countsForm_def)
  have r: "raw_correctCount (toRecord (makeEntry ''k3x9q2a'' ''2025-01-15'' countsForm)) = JNum 50"
    "raw_incorrectCount (toRecord (makeEntry ''k3x9q2a'' ''2025-01-15'' countsForm)) = JNum 0"
    "raw_notAttemptedCount (toRecord (makeEntry ''k3x9q2a'' ''2025-01-15'' countsForm)) = JNum 15"
    using h by (simp_all add: toRecord_def makeEntry_counts countsForm_def)
  show ?thesis
    using h by (simp add: normalizeImported_counts r triple_as_unit_def makeEntry_counts)
      (simp add: countsForm_def)
qed

section \<open>Import of a file that is not an array\<close>

text \<open>
  C6. When the parsed file is not an array (an object, a scalar, or text that does not
  parse), the import ends with the error toast \<open>Failed to import: ...\<close> and the state is
  otherwise unchanged: no record is written and the stored tests stay as they were.
\<close>

theorem import_rejects_non_array:
  assumes "\<not> isArray data"
  shows "\<exists>msg. handleImportJSON dv uids today data st
           = st\<lparr>toastAlert := Some (''Failed to import: '' @ msg, ToastError)\<rparr>"
  using assms by (cases data) (auto simp: handleImportJSON_def importFailed_def)

theorem import_rejects_non_array_witness:
  "\<not> isArray (JObject sampleRaw)
   \<and> tests (handleImportJSON sampleDate sampleUids ''2025-01-15'' (JObject sampleRaw)
        \<lparr> tests = [makeEntry ''k3x9q2a'' ''2025-01-15'' rankForm], toastAlert = None \<rparr>)
       = [makeEntry ''k3x9q2a'' ''2025-01-15'' rankForm]"
proof -
  have a: "\<not> isArray (JObject sampleRaw)" by simp
  from import_rejects_non_array [OF a, of sampleDate sampleUids "''2025-01-15''"
      "\<lparr> tests = [makeEntry ''k3x9q2a'' ''2025-01-15'' rankForm], toastAlert = None \<rparr>"]
  obtain msg where "handleImportJSON sampleDate sampleUids ''2025-01-15'' (JObject sampleRaw)
        \<lparr> tests = [makeEntry ''k3x9q2a'' ''2025-01-15'' rankForm], toastAlert = None \<rparr>
      = \<lparr> tests = [makeEntry ''k3x9q2a'' ''2025-01-15'' rankForm], toastAlert = None \<rparr>
          \<lparr>toastAlert := Some (''Failed to import: '' @ msg, ToastError)\<rparr>"
    by blast
  then show ?thesis using a by simp
qed

section \<open>Export followed by import\<close>

lemma normalizeAll_export:
  "normalizeAll uids today i (map (\<lambda>t. Some (toRecord t)) ts)
     = Some (map (\<lambda>(k, t). normalizeImported (uids k) today (toRecord t))
          (zip [i ..< i + length ts] ts))"
proof (induction ts arbitrary: i)
  case Nil
  then show ?case by simp
next
  case (Cons t ts)
  have "[i ..< i + length (t # ts)] = i # [Suc i ..< Suc i + length ts]"
    by (simp add: upt_rec)
  with Cons.IH [of "Suc i"] show ?case by simp
qed

lemma roundtrip_entry:
  assumes v: "valid_entry t" and c: "positive_counts t"
  shows "normalizeImported uid today (toRecord t) = t"
proof -
  from v obtain m ob where mo: "maxMarks t = Num m" "obtainedMarks t = Num ob" "0 < m"
    unfolding valid_entry_def spec_marks_ok_iff by blast
  have count: "(if jgt (NumberJ (jsonOpt x)) (Num 0) then Some (NumberJ (jsonOpt x)) else None) = x"
    if "positive_or_null x" for x
  proof (cases x)
    case None
    then show ?thesis by simp
  next
    case (Some n)
    with that show ?thesis by (cases n) auto
  qed
  from v have texts: "id' t \<noteq> []" "subject t \<noteq> []" "category t \<noteq> []" "provider t \<noteq> []"
    "date t \<noteq> []"
    by (simp_all add: valid_entry_def)
  from v have pct: "percentage t
      = jdiv (Math_round (jmul (jdiv (obtainedMarks t) (maxMarks t)) (Num 10000))) (Num 100)"
    by (simp add: valid_entry_def)
  from v have rk: "(case (testRank t, totalTestTakers t) of
            (None, None) \<Rightarrow> rankPercentile t = None
          | (Some r, Some n) \<Rightarrow> positive_rank_ok r n
              \<and> rankPercentile t
                  = Some (jdiv (Math_round (jmul (jsub (Num 1) (jdiv r n)) (Num 10000))) (Num 100))
          | _ \<Rightarrow> False)"
    by (simp add: valid_entry_def)
  have rank: "testRank (normalizeImported uid today (toRecord t)) = testRank t
      \<and> totalTestTakers (normalizeImported uid today (toRecord t)) = totalTestTakers t
      \<and> rankPercentile (normalizeImported uid today (toRecord t)) = rankPercentile t"
  proof (cases "testRank t")
    case None
    with rk show ?thesis
      by (cases "totalTestTakers t")
        (simp_all add: normalizeImported_rank importHasRank_def toRecord_def)
  next
    case (Some r)
    with rk obtain n where n: "totalTestTakers t = Some n"
      by (cases "totalTestTakers t") auto
    from rk Some n have "positive_rank_ok r n" by simp
    then obtain r' n' where rn: "r = Num r'" "n = Num n'" "0 < r'" "r' \<le> n'"
      unfolding positive_rank_ok_iff by blast
    have h: "importHasRank (toRecord t)"
      using Some n rn by (simp add: importHasRank_def toRecord_def)
    from rk Some n have "rankPercentile t
       = Some (jdiv (Math_round (jmul (jsub (Num 1) (jdiv r n)) (Num 10000))) (Num 100))"
      by simp
    with h Some n rn show ?thesis
      by (simp add: normalizeImported_rank del: jdiv.simps jmul.simps jsub.simps Math_round.simps)
        (simp add: toRecord_def)
  qed
  from c have cs: "positive_or_null (correctCount t)" "positive_or_null (incorrectCount t)"
    "positive_or_null (notAttemptedCount t)"
    by (simp_all add: positive_counts_def)
  show ?thesis
  proof (rule entry.equality)
    show "id' (normalizeImported uid today (toRecord t)) = id' t"
      using texts by (simp add: normalizeImported_def toRecord_def Let_def str_or_def)
    show "subject (normalizeImported uid today (toRecord t)) = subject t"
      using texts by (simp add: normalizeImported_def toRecord_def Let_def str_or_def)
    show "category (normalizeImported uid today (toRecord t)) = category t"
      using texts by (simp add: normalizeImported_def toRecord_def Let_def str_or_def)
    show "provider (normalizeImported uid today (toRecord t)) = provider t"
      using texts by (simp add: normalizeImported_def toRecord_def Let_def str_or_def)
    show "date (normalizeImported uid today (toRecord t)) = date t"
      using texts by (simp add: normalizeImported_def toRecord_def Let_def str_or_def)
    show "notes (normalizeImported uid today (toRecord t)) = notes t"
      by (simp add: normalizeImported_def toRecord_def Let_def str_or_def)
    show "maxMarks (normalizeImported uid today (toRecord t)) = maxMarks t"
      using mo by (simp add: normalizeImported_def toRecord_def Let_def num_or_def)
    show "obtainedMarks (normalizeImported uid today (toRecord t)) = obtainedMarks t"
      using mo by (simp add: normalizeImported_def toRecord_def Let_def num_or_def)
    show "percentage (normalizeImported uid today (toRecord t)) = percentage t"
      using mo by (simp add: pct normalizeImported_def toRecord_def Let_def num_or_def)
    show "correctCount (normalizeImported uid today (toRecord t)) = correctCount t"
      using count [OF cs(1)]
      by (auto simp: normalizeImported_def toRecord_def Let_def split: if_splits)
    show "incorrectCount (normalizeImported uid today (toRecord t)) = incorrectCount t"
      using count [OF cs(2)]
      by (auto simp: normalizeImported_def toRecord_def Let_def split: if_splits)
    show "notAttemptedCount (normalizeImported uid today (toRecord t)) = notAttemptedCount t"
      using count [OF cs(3)]
      by (auto simp: normalizeImported_def toRecord_def Let_def split: if_splits)
    show "testRank (normalizeImported uid today (toRecord t)) = testRank t"
      using rank by simp
    show "totalTestTakers (normalizeImported uid today (toRecord t)) = totalTestTakers t"
      using rank by simp
    show "rankPercentile (normalizeImported uid today (toRecord t)) = rankPercentile t"
      using rank by simp
    show "entry.more (normalizeImported uid today (toRecord t)) = entry.more t"
      by simp
  qed
qed

lemma roundtrip_list:
  assumes "list_all valid_entry ts" and "list_all positive_counts ts"
  shows "map (\<lambda>(k, t). normalizeImported (uids k) today (toRecord t)) (zip [i ..< i + length ts] ts)
           = ts"
  using assms
proof (induction ts arbitrary: i)
  case Nil
  then show ?case by simp
next
  case (Cons t ts)
  have "[i ..< i + length (t # ts)] = i # [Suc i ..< Suc i + length ts]"
    by (simp add: upt_rec)
  with Cons.IH [of "Suc i"] Cons.prems show ?case
    by (simp add: roundtrip_entry)
qed

lemma js_sort_in_order:
  assumes "sorted_wrt (\<lambda>a b. \<not> jgt (cmp a b) (Num 0)) xs"
  shows "js_sort cmp xs = xs"
  using assms
proof (induction xs)
  case Nil
  then show ?case by (simp add: js_sort_def)
next
  case (Cons x xs)
  then have r: "js_sort cmp xs = xs" by simp
  have "js_sort cmp (x # xs) = js_insert cmp x (js_sort cmp xs)"
    by (simp add: js_sort_def)
  also have "\<dots> = js_insert cmp x xs" by (simp add: r)
  also have "\<dots> = x # xs"
    using Cons.prems by (cases xs) auto
  finally show ?case .
qed

lemma validation_subject:
  assumes "validation f = None"
  shows "trim (form_subject f) \<noteq> []"
  using assms unfolding validation_def Let_def by (auto split: if_splits)

lemma makeEntry_valid:
  assumes v: "validation f = None"
    and t: "uid \<noteq> []" "form_category f \<noteq> []" "form_provider f \<noteq> []" "today \<noteq> []"
  shows "valid_entry (makeEntry uid today f)"
proof -
  have texts: "id' (makeEntry uid today f) \<noteq> []" "subject (makeEntry uid today f) \<noteq> []"
    "category (makeEntry uid today f) \<noteq> []" "provider (makeEntry uid today f) \<noteq> []"
    "date (makeEntry uid today f) \<noteq> []"
    using t validation_subject [OF v]
    by (simp_all add: makeEntry_def Let_def str_or_def split: option.split)
  from validation_marks [OF v] obtain m ob where
    mo: "Number (form_maxMarks f) = Num m" "Number (form_obtainedMarks f) = Num ob"
      "0 < m" "0 \<le> ob" "ob \<le> m"
    by blast
  then have marks: "spec_marks_ok (maxMarks (makeEntry uid today f))
      (obtainedMarks (makeEntry uid today f))"
    by (simp add: makeEntry_marks spec_marks_ok_iff)
  have pct: "percentage (makeEntry uid today f)
      = jdiv (Math_round (jmul (jdiv (obtainedMarks (makeEntry uid today f))
          (maxMarks (makeEntry uid today f))) (Num 10000))) (Num 100)"
    using mo by (simp add: makeEntry_percentage makeEntry_marks)
  have rank: "(case (testRank (makeEntry uid today f), totalTestTakers (makeEntry uid today f)) of
            (None, None) \<Rightarrow> rankPercentile (makeEntry uid today f) = None
          | (Some r, Some n) \<Rightarrow> positive_rank_ok r n
              \<and> rankPercentile (makeEntry uid today f)
                  = Some (jdiv (Math_round (jmul (jsub (Num 1) (jdiv r n)) (Num 10000))) (Num 100))
          | _ \<Rightarrow> False)"
  proof (cases "hasRank f")
    case True
    from validation_rank [OF v True] True show ?thesis
      by (auto simp: makeEntry_rank positive_rank_ok_iff)
  next
    case False
    then show ?thesis by (simp add: makeEntry_rank)
  qed
  from texts marks pct rank show ?thesis
    unfolding valid_entry_def by blast
qed

lemma export_import_tests:
  assumes "list_all valid_entry C" and "list_all positive_counts C"
  shows "tests (handleImportJSON dv uids today
            (handleExportJSON \<lparr> tests = C, toastAlert = a \<rparr>) \<lparr> tests = [], toastAlert = b \<rparr>)
          = js_sort (byDateDesc dv) C"
  using roundtrip_list [OF assms, of uids today 0]
  by (simp add: handleImportJSON_def handleExportJSON_def normalizeAll_export)

text \<open>
  C5, as the code has it. For a collection \<open>C\<close> of valid entries whose three counts are
  each \<open>null\<close> or positive, importing the export of \<open>C\<close> into an empty collection
  gives the entries of \<open>C\<close>, field for field, in the order of the import's date sort;
  this is \<open>C\<close> itself when no entry of \<open>C\<close> is followed by a newer one.
\<close>

theorem export_import_roundtrip:
  assumes "list_all valid_entry C" and "list_all positive_counts C"
  shows "tests (handleImportJSON dv uids today
            (handleExportJSON \<lparr> tests = C, toastAlert = a \<rparr>) \<lparr> tests = [], toastAlert = b \<rparr>)
          = js_sort (byDateDesc dv) C
      \<and> (newest_first dv C \<longrightarrow>
          tests (handleImportJSON dv uids today
            (handleExportJSON \<lparr> tests = C, toastAlert = a \<rparr>) \<lparr> tests = [], toastAlert = b \<rparr>)
          = C)"
  using export_import_tests [OF assms] js_sort_in_order [of "byDateDesc dv" C]
  by (simp add: newest_first_def)

lemma fullForm_valid: "validation fullForm = None"
  by (simp add: validation_def fullForm_def rankForm_def marksForm_def blankForm_def trim_def
      is_ws_def hasRank_def)

lemma countsForm_valid: "validation countsForm = None"
  by (simp add: validation_def countsForm_def marksForm_def blankForm_def trim_def
      is_ws_def hasRank_def)

lemma sample_dates:
  "sampleDate ''2025-02-01'' = Num 20250201" "sampleDate ''2025-01-15'' = Num 20250115"
  by (simp_all add: sampleDate_def)

lemma sample_date_diff: "fl (20250115 - 20250201) = - 86"
  by code_simp

theorem export_import_roundtrip_witness:
  "list_all valid_entry [makeEntry ''k3x9q2a'' ''2025-01-15'' fullForm,
      makeEntry ''p8w1z5c'' ''2025-01-15'' rankForm]
   \<and> list_all positive_counts [makeEntry ''k3x9q2a'' ''2025-01-15'' fullForm,
      makeEntry ''p8w1z5c'' ''2025-01-15'' rankForm]
   \<and> newest_first sampleDate [makeEntry ''k3x9q2a'' ''2025-01-15'' fullForm,
      makeEntry ''p8w1z5c'' ''2025-01-15'' rankForm]
   \<and> tests (handleImportJSON sampleDate sampleUids ''2025-03-01''
        (handleExportJSON \<lparr> tests = [makeEntry ''k3x9q2a'' ''2025-01-15'' fullForm,
           makeEntry ''p8w1z5c'' ''2025-01-15'' rankForm], toastAlert = None \<rparr>)
        \<lparr> tests = [], toastAlert = None \<rparr>)
      = [makeEntry ''k3x9q2a'' ''2025-01-15'' fullForm, makeEntry ''p8w1z5c'' ''2025-01-15'' rankForm]"
proof -
  have v: "list_all valid_entry [makeEntry ''k3x9q2a'' ''2025-01-15'' fullForm,
      makeEntry ''p8w1z5c'' ''2025-01-15'' rankForm]"
    using makeEntry_valid [OF fullForm_valid, of "''k3x9q2a''" "''2025-01-15''"]
      makeEntry_valid [OF rankForm_valid, of "''p8w1z5c''" "''2025-01-15''"]
    by (simp add: fullForm_def rankForm_def marksForm_def blankForm_def)
  have p: "list_all positive_counts [makeEntry ''k3x9q2a'' ''2025-01-15'' fullForm,
      makeEntry ''p8w1z5c'' ''2025-01-15'' rankForm]"
    by (simp add: positive_counts_def makeEntry_counts hasCounts_def fullForm_def rankForm_def
        marksForm_def blankForm_def)
  have d: "date (makeEntry ''k3x9q2a'' ''2025-01-15'' fullForm) = ''2025-02-01''"
    "date (makeEntry ''p8w1z5c'' ''2025-01-15'' rankForm) = ''2025-01-15''"
    by (simp_all add: makeEntry_def Let_def str_or_def fullForm_def rankForm_def marksForm_def
        blankForm_def)
  have n: "newest_first sampleDate [makeEntry ''k3x9q2a'' ''2025-01-15'' fullForm,
      makeEntry ''p8w1z5c'' ''2025-01-15'' rankForm]"
    using sample_date_diff by (simp add: newest_first_def byDateDesc_def d sample_dates)
  from export_import_roundtrip [OF v p, of sampleDate sampleUids "''2025-03-01''" None None] v p n
  show ?thesis by blast
qed

text \<open>
  The claim C5 as written fails: the entry the add path stores for the counts 50, 0, 15
  is valid, and the import of its export differs from it in \<open>incorrectCount\<close>.
\<close>

theorem export_import_roundtrip_counterexample:
  "valid_entry (makeEntry ''k3x9q2a'' ''2025-01-15'' countsForm)
   \<and> tests (handleAddOrUpdate sampleDate ''k3x9q2a'' ''2025-01-15'' countsForm emptyApp)
       = [makeEntry ''k3x9q2a'' ''2025-01-15'' countsForm]
   \<and> tests (handleImportJSON sampleDate sampleUids ''2025-01-15''
        (handleExportJSON (handleAddOrUpdate sampleDate ''k3x9q2a'' ''2025-01-15'' countsForm emptyApp))
        emptyApp)
      \<noteq> [makeEntry ''k3x9q2a'' ''2025-01-15'' countsForm]"
proof -
  have v: "valid_entry (makeEntry ''k3x9q2a'' ''2025-01-15'' countsForm)"
    using makeEntry_valid [OF countsForm_valid, of "''k3x9q2a''" "''2025-01-15''"]
    by (simp add: countsForm_def marksForm_def blankForm_def)
  have s: "tests (handleAddOrUpdate sampleDate ''k3x9q2a'' ''2025-01-15'' countsForm emptyApp)
       = [makeEntry ''k3x9q2a'' ''2025-01-15'' countsForm]"
    by (simp add: handleAddOrUpdate_accepted [OF countsForm_valid] addOrReplace_def emptyApp_def
        js_sort_def)
  have h: "hasCounts countsForm"
    by (simp add: hasCounts_def countsForm_def)
  have z: "incorrectCount (makeEntry ''k3x9q2a'' ''2025-01-15'' countsForm) = Some (Num 0)"
    using h by (simp add: makeEntry_counts) (simp add: countsForm_def)
  then have r: "raw_incorrectCount (toRecord (makeEntry ''k3x9q2a'' ''2025-01-15'' countsForm))
      = JNum 0"
    by (simp add: toRecord_def)
  have i: "incorrectCount (normalizeImported (sampleUids 0) ''2025-01-15''
      (toRecord (makeEntry ''k3x9q2a'' ''2025-01-15'' countsForm))) = None"
    by (simp add: normalizeImported_counts r)
  have e: "tests (handleImportJSON sampleDate sampleUids ''2025-01-15''
        (JArray [Some (toRecord (makeEntry ''k3x9q2a'' ''2025-01-15'' countsForm))]) emptyApp)
      = [normalizeImported (sampleUids 0) ''2025-01-15''
          (toRecord (makeEntry ''k3x9q2a'' ''2025-01-15'' countsForm))]"
    by (simp add: handleImportJSON_def emptyApp_def js_sort_def)
  have x: "handleExportJSON (handleAddOrUpdate sampleDate ''k3x9q2a'' ''2025-01-15'' countsForm emptyApp)
      = JArray [Some (toRecord (makeEntry ''k3x9q2a'' ''2025-01-15'' countsForm))]"
    by (simp add: handleExportJSON_def s)
  have "normalizeImported (sampleUids 0) ''2025-01-15''
          (toRecord (makeEntry ''k3x9q2a'' ''2025-01-15'' countsForm))
      \<noteq> makeEntry ''k3x9q2a'' ''2025-01-15'' countsForm"
    using i z by auto
  with v s e x show ?thesis by simp
qed

section \<open>The filter is a conjunction\<close>

lemma str_includes_sublist: "str_includes hay needle \<longleftrightarrow> sublist needle hay"
  by (induction hay) (auto simp: sublist_Cons_right)

lemma not_jlt_jge: "\<not> isNaN a \<Longrightarrow> \<not> isNaN b \<Longrightarrow> \<not> jlt a b \<longleftrightarrow> jge a b"
  by (cases a; cases b) auto

lemma not_jgt_jle: "\<not> isNaN a \<Longrightarrow> \<not> isNaN b \<Longrightarrow> \<not> jgt a b \<longleftrightarrow> jle a b"
  by (cases a; cases b) auto

lemma keeps_conj:
  "keeps dv fs t \<longleftrightarrow> exact_subject fs t \<and> from_inclusive dv fs t \<and> to_inclusive dv fs t
     \<and> search_match fs t"
proof -
  have f: "(dateFrom fs \<noteq> [] \<and> jlt (dv (date t)) (dv (dateFrom fs))) \<longleftrightarrow> \<not> from_inclusive dv fs t"
    by (auto simp: from_inclusive_def)
  have g: "(dateTo fs \<noteq> [] \<and> jgt (dv (date t)) (dv (dateTo fs))) \<longleftrightarrow> \<not> to_inclusive dv fs t"
    by (auto simp: to_inclusive_def)
  have s: "(filterSubject fs \<noteq> ''All'' \<and> subject t \<noteq> filterSubject fs) \<longleftrightarrow> \<not> exact_subject fs t"
    by (auto simp: exact_subject_def)
  show ?thesis
    unfolding keeps_def f g s
    by (auto simp: search_match_def ci_substring_def str_includes_sublist str_or_def Let_def)
qed

lemma providerFilteredTests_filter:
  "providerFilteredTests fs ts = filter (provider_or_other fs) ts"
  by (auto simp: providerFilteredTests_def provider_or_other_def intro: filter_cong)

lemma filtered_conjunctive: "filtered dv fs ts = conjunctive_filter dv fs ts"
proof -
  have "filtered dv fs ts = filter (\<lambda>t. provider_or_other fs t \<and> keeps dv fs t) ts"
    by (simp add: filtered_def providerFilteredTests_filter conj_commute)
  also have "\<dots> = conjunctive_filter dv fs ts"
    unfolding conjunctive_filter_def
    by (rule filter_cong) (auto simp: keeps_conj)
  finally show ?thesis .
qed

lemma bounds_inclusive:
  assumes "valid_dates dv fs t"
  shows "(from_inclusive dv fs t \<longleftrightarrow> dateFrom fs = [] \<or> jge (dv (date t)) (dv (dateFrom fs)))
     \<and> (to_inclusive dv fs t \<longleftrightarrow> dateTo fs = [] \<or> jle (dv (date t)) (dv (dateTo fs)))"
  using assms not_jlt_jge [of "dv (date t)" "dv (dateFrom fs)"]
    not_jgt_jle [of "dv (date t)" "dv (dateTo fs)"]
  by (auto simp: valid_dates_def from_inclusive_def to_inclusive_def)

text \<open>
  C7, as the code has it. The filter keeps exactly the entries that satisfy all five
  predicates: provider equal to the chosen one, an entry without provider counting as
  \<open>Other\<close> (\<open>All\<close>: no filter); subject equal to the chosen one (\<open>All\<close>: no filter);
  date not before the lower and not after the upper bound, which for valid dates is a
  date on or after the lower and on or before the upper bound; search text a
  case-insensitive substring of subject, notes, category or provider. The result lists
  the kept entries in the order of the input, which is a value and is not changed.
\<close>

theorem filtered_is_conjunction:
  "filtered dv fs ts = conjunctive_filter dv fs ts
   \<and> subseq (filtered dv fs ts) ts
   \<and> (valid_dates dv fs t \<longrightarrow>
        (from_inclusive dv fs t \<longleftrightarrow> dateFrom fs = [] \<or> jge (dv (date t)) (dv (dateFrom fs)))
      \<and> (to_inclusive dv fs t \<longleftrightarrow> dateTo fs = [] \<or> jle (dv (date t)) (dv (dateTo fs))))"
proof -
  have "subseq (conjunctive_filter dv fs ts) ts"
    by (simp add: conjunctive_filter_def)
  with filtered_conjunctive [of dv fs ts] bounds_inclusive [of dv fs t] show ?thesis by simp
qed

lemma sample_texts:
  "date (makeEntry u d fullForm) = ''2025-02-01''"
  "date (makeEntry u d rankForm) = ''2025-01-15''"
  "date (makeEntry u d marksForm) = ''2025-01-15''"
  "subject (makeEntry u d rankForm) = ''Engineering Mathematics''"
  "subject (makeEntry u d fullForm) = ''Engineering Mathematics''"
  "provider (makeEntry u d rankForm) = ''Ace Academy''"
  "provider (makeEntry u d fullForm) = ''Ace Academy''"
  "category (makeEntry u d rankForm) = ''Topic Wise''"
  "notes (makeEntry u d rankForm) = []"
  by (simp_all add: makeEntry_def Let_def str_or_def fullForm_def rankForm_def marksForm_def
      blankForm_def trim_def is_ws_def)

lemma lower_math: "toLowerCase ''MATH'' = ''math''"
  "toLowerCase ''Engineering Mathematics'' = ''engineering mathematics''"
  by code_simp+

theorem filtered_is_conjunction_witness:
  "valid_dates sampleDate januaryMaths (makeEntry ''k3x9q2a'' ''2025-01-15'' fullForm)
   \<and> \<not> to_inclusive sampleDate januaryMaths (makeEntry ''k3x9q2a'' ''2025-01-15'' fullForm)
   \<and> conjunctive_filter sampleDate januaryMaths
     [makeEntry ''k3x9q2a'' ''2025-01-15'' fullForm, makeEntry ''p8w1z5c'' ''2025-01-15'' rankForm]
       = [makeEntry ''p8w1z5c'' ''2025-01-15'' rankForm]
   \<and> filtered sampleDate januaryMaths
     [makeEntry ''k3x9q2a'' ''2025-01-15'' fullForm, makeEntry ''p8w1z5c'' ''2025-01-15'' rankForm]
       = [makeEntry ''p8w1z5c'' ''2025-01-15'' rankForm]"
proof -
  have d: "sampleDate ''2025-01-31'' = Num 20250131"
    by (simp add: sampleDate_def)
  have v: "valid_dates sampleDate januaryMaths (makeEntry ''k3x9q2a'' ''2025-01-15'' fullForm)"
    by (simp add: valid_dates_def januaryMaths_def sample_texts sample_dates d)
  have k: "keeps sampleDate januaryMaths (makeEntry ''p8w1z5c'' ''2025-01-15'' rankForm)"
    by (simp add: keeps_def januaryMaths_def sample_texts sample_dates d lower_math)
  have n: "\<not> keeps sampleDate januaryMaths (makeEntry ''k3x9q2a'' ''2025-01-15'' fullForm)"
    by (simp add: keeps_def januaryMaths_def sample_texts sample_dates d)
  have f: "filtered sampleDate januaryMaths
     [makeEntry ''k3x9q2a'' ''2025-01-15'' fullForm, makeEntry ''p8w1z5c'' ''2025-01-15'' rankForm]
       = [makeEntry ''p8w1z5c'' ''2025-01-15'' rankForm]"
    using k n by (simp add: filtered_def providerFilteredTests_def januaryMaths_def sample_texts
        str_or_def)
  note t = filtered_is_conjunction [of sampleDate januaryMaths
      "[makeEntry ''k3x9q2a'' ''2025-01-15'' fullForm, makeEntry ''p8w1z5c'' ''2025-01-15'' rankForm]"
      "makeEntry ''k3x9q2a'' ''2025-01-15'' fullForm"]
  from t v have "to_inclusive sampleDate januaryMaths (makeEntry ''k3x9q2a'' ''2025-01-15'' fullForm)
      \<longleftrightarrow> dateTo januaryMaths = []
        \<or> jle (sampleDate (date (makeEntry ''k3x9q2a'' ''2025-01-15'' fullForm)))
             (sampleDate (dateTo januaryMaths))"
    by blast
  then have o: "\<not> to_inclusive sampleDate januaryMaths (makeEntry ''k3x9q2a'' ''2025-01-15'' fullForm)"
    by (simp add: januaryMaths_def sample_texts sample_dates d)
  from t f v o show ?thesis by simp
qed

text \<open>
  The claim C7 as written fails on the provider: with the filter set to \<open>Other\<close>, the
  code keeps an entry that has no provider, and an exact match would drop it.
\<close>

theorem filtered_is_conjunction_counterexample:
  "provider legacyEntry = []
   \<and> filterProvider otherFilter = ''Other''
   \<and> filtered sampleDate otherFilter [legacyEntry] = [legacyEntry]
   \<and> spec_filter sampleDate otherFilter [legacyEntry] = []"
proof -
  have p: "provider legacyEntry = []"
    by (simp add: legacyEntry_def)
  have k: "keeps sampleDate otherFilter legacyEntry"
    by (simp add: keeps_def otherFilter_def)
  have f: "filtered sampleDate otherFilter [legacyEntry] = [legacyEntry]"
    using k p by (simp add: filtered_def providerFilteredTests_def str_or_def)
      (simp add: otherFilter_def)
  have s: "spec_filter sampleDate otherFilter [legacyEntry] = []"
    using p by (simp add: spec_filter_def exact_provider_def otherFilter_def)
  from p f s show ?thesis by (simp add: otherFilter_def)
qed

section \<open>CSV export\<close>

lemma includes_char: "str_includes s [c] \<longleftrightarrow> c \<in> set s"
  by (induction s) auto

lemma replace_quotes_concat:
  "replace_quotes s = concat (map (\<lambda>c. if c = CHR 0x22 then [c, c] else [c]) s)"
  by (induction s) auto

lemma csvEscape_string: "csvEscape numStr (CStr s) = spec_text s"
  by (simp add: csvEscape_def spec_text_def needs_quotes_def quoted_def includes_char
      replace_quotes_concat)

lemma csvEscape_number: "csvEscape numStr (CNum n) = spec_text (numStr n)"
  by (simp add: csvEscape_def spec_text_def needs_quotes_def quoted_def includes_char
      replace_quotes_concat)

lemma csvEscape_optional: "csvEscape numStr (or_empty v) = spec_optional numStr v"
proof (cases v)
  case None
  then show ?thesis by (simp add: spec_optional_def csvEscape_def)
next
  case (Some n)
  show ?thesis
  proof (cases n)
    case NaN
    with Some show ?thesis by (simp add: spec_optional_def csvEscape_def)
  next
    case (Num r)
    with Some show ?thesis
      by (simp add: spec_optional_def csvEscape_number) (simp add: csvEscape_def)
  qed
qed

lemma csvRow_spec: "csvRow numStr t = spec_row numStr t"
  by (simp add: csvRow_def csvCells_def spec_row_def csvEscape_string csvEscape_number
      csvEscape_optional)

lemma headers_spec: "join '','' headers = spec_header"
  by (simp add: headers_def spec_header_def)

lemma join_lines: "join [CHR 0x0A] ls = spec_lines ls"
  by (induction ls rule: spec_lines.induct) simp_all

lemma handleExportCSV_spec: "handleExportCSV numStr st = spec_csv numStr (tests st)"
proof -
  have "csvRow numStr = spec_row numStr"
    by (rule ext) (rule csvRow_spec)
  then show ?thesis
    by (simp add: handleExportCSV_def spec_csv_def join_lines headers_spec)
qed

lemma spec_row_zero:
  "spec_row numStr (t\<lparr>correctCount := Some (Num 0)\<rparr>) = spec_row numStr (t\<lparr>correctCount := None\<rparr>)"
  "spec_row numStr (t\<lparr>incorrectCount := Some (Num 0)\<rparr>) = spec_row numStr (t\<lparr>incorrectCount := None\<rparr>)"
  "spec_row numStr (t\<lparr>notAttemptedCount := Some (Num 0)\<rparr>)
     = spec_row numStr (t\<lparr>notAttemptedCount := None\<rparr>)"
  "spec_row numStr (t\<lparr>testRank := Some (Num 0)\<rparr>) = spec_row numStr (t\<lparr>testRank := None\<rparr>)"
  "spec_row numStr (t\<lparr>totalTestTakers := Some (Num 0)\<rparr>)
     = spec_row numStr (t\<lparr>totalTestTakers := None\<rparr>)"
  "spec_row numStr (t\<lparr>rankPercentile := Some (Num 0)\<rparr>)
     = spec_row numStr (t\<lparr>rankPercentile := None\<rparr>)"
  by (simp_all add: spec_row_def spec_optional_def)

text \<open>
  C10. The text \<open>handleExportCSV\<close> writes is the header line followed by one row per
  stored test, each row the fourteen fields in the order of the header: the text fields
  and the three numbers that are always present are written as they are, or in quotes
  with each quote character doubled exactly when they contain a comma, a newline or a
  quote character, and each of the six optional numbers is the empty field when it is
  \<open>null\<close> or 0. So two collections that differ only in that one of these fields is 0 in
  the one and \<open>null\<close> in the other give the same file.
\<close>

theorem csv_zero_and_null:
  "handleExportCSV numStr st = spec_csv numStr (tests st)
   \<and> handleExportCSV numStr (st\<lparr>tests := ts @ t\<lparr>correctCount := Some (Num 0)\<rparr> # us\<rparr>)
       = handleExportCSV numStr (st\<lparr>tests := ts @ t\<lparr>correctCount := None\<rparr> # us\<rparr>)
   \<and> handleExportCSV numStr (st\<lparr>tests := ts @ t\<lparr>incorrectCount := Some (Num 0)\<rparr> # us\<rparr>)
       = handleExportCSV numStr (st\<lparr>tests := ts @ t\<lparr>incorrectCount := None\<rparr> # us\<rparr>)
   \<and> handleExportCSV numStr (st\<lparr>tests := ts @ t\<lparr>notAttemptedCount := Some (Num 0)\<rparr> # us\<rparr>)
       = handleExportCSV numStr (st\<lparr>tests := ts @ t\<lparr>notAttemptedCount := None\<rparr> # us\<rparr>)
   \<and> handleExportCSV numStr (st\<lparr>tests := ts @ t\<lparr>testRank := Some (Num 0)\<rparr> # us\<rparr>)
       = handleExportCSV numStr (st\<lparr>tests := ts @ t\<lparr>testRank := None\<rparr> # us\<rparr>)
   \<and> handleExportCSV numStr (st\<lparr>tests := ts @ t\<lparr>totalTestTakers := Some (Num 0)\<rparr> # us\<rparr>)
       = handleExportCSV numStr (st\<lparr>tests := ts @ t\<lparr>totalTestTakers := None\<rparr> # us\<rparr>)
   \<and> handleExportCSV numStr (st\<lparr>tests := ts @ t\<lparr>rankPercentile := Some (Num 0)\<rparr> # us\<rparr>)
       = handleExportCSV numStr (st\<lparr>tests := ts @ t\<lparr>rankPercentile := None\<rparr> # us\<rparr>)
   \<and> csvEscape numStr (CStr s) = (if needs_quotes s then quoted s else s)
   \<and> csvEscape numStr (CNum n) = (if needs_quotes (numStr n) then quoted (numStr n) else numStr n)
   \<and> csvEscape numStr CNull = []"
proof -
  have 1: "handleExportCSV numStr st = spec_csv numStr (tests st)"
    by (rule handleExportCSV_spec)
  have 2: "handleExportCSV numStr (st\<lparr>tests := ts @ t\<lparr>correctCount := Some (Num 0)\<rparr> # us\<rparr>)
       = handleExportCSV numStr (st\<lparr>tests := ts @ t\<lparr>correctCount := None\<rparr> # us\<rparr>)"
    "handleExportCSV numStr (st\<lparr>tests := ts @ t\<lparr>incorrectCount := Some (Num 0)\<rparr> # us\<rparr>)
       = handleExportCSV numStr (st\<lparr>tests := ts @ t\<lparr>incorrectCount := None\<rparr> # us\<rparr>)"
    "handleExportCSV numStr (st\<lparr>tests := ts @ t\<lparr>notAttemptedCount := Some (Num 0)\<rparr> # us\<rparr>)
       = handleExportCSV numStr (st\<lparr>tests := ts @ t\<lparr>notAttemptedCount := None\<rparr> # us\<rparr>)"
    "handleExportCSV numStr (st\<lparr>tests := ts @ t\<lparr>testRank := Some (Num 0)\<rparr> # us\<rparr>)
       = handleExportCSV numStr (st\<lparr>tests := ts @ t\<lparr>testRank := None\<rparr> # us\<rparr>)"
    "handleExportCSV numStr (st\<lparr>tests := ts @ t\<lparr>totalTestTakers := Some (Num 0)\<rparr> # us\<rparr>)
       = handleExportCSV numStr (st\<lparr>tests := ts @ t\<lparr>totalTestTakers := None\<rparr> # us\<rparr>)"
    "handleExportCSV numStr (st\<lparr>tests := ts @ t\<lparr>rankPercentile := Some (Num 0)\<rparr> # us\<rparr>)
       = handleExportCSV numStr (st\<lparr>tests := ts @ t\<lparr>rankPercentile := None\<rparr> # us\<rparr>)"
    by (simp_all add: handleExportCSV_spec spec_csv_def spec_row_zero)
  have 3: "csvEscape numStr (CStr s) = (if needs_quotes s then quoted s else s)"
    "csvEscape numStr (CNum n) = (if needs_quotes (numStr n) then quoted (numStr n) else numStr n)"
    "csvEscape numStr CNull = []"
    by (simp_all add: csvEscape_string csvEscape_number spec_text_def) (simp add: csvEscape_def)
  from 1 2 3 show ?thesis by blast
qed

section \<open>Accuracy and unattempted count\<close>

lemma floor_one_half: "\<lfloor>1 / 2 :: rat\<rfloor> = 0"
  by (rule floor_unique) simp_all

lemma toFixed1_round1: "toFixed1 (Num x) = Num (round1 x)"
  by (simp add: round1_def floor_half_up [symmetric] sgn_if floor_one_half)

lemma num_or_Num: "num_or (Num x) (Num d) = Num (if x = 0 then d else x)"
  by (simp add: num_or_def)

lemma round1_nonneg: "0 \<le> x \<Longrightarrow> round1 x = of_int (round_half_up (x * 10)) / 10"
  by (cases "x = 0") (simp_all add: round1_def round_half_up_def)

lemma stats_accuracy:
  "accuracy (stats (Num c) (Num w) (Num q))
     = (if 0 < fl (c + w) then Num (round1 (fl (fl (c / fl (c + w)) * 100))) else Num 0)"
proof -
  have z: "round1 0 = 0" by (simp add: round1_def)
  show ?thesis
    by (simp add: stats_def Let_def num_or_Num toFixed1_round1 z del: toFixed1.simps)
qed

lemma stats_unattempted:
  "unattempted (stats (Num c) (Num w) (Num q))
     = Num (max 0 (fl ((if q = 0 then 65 else q) - fl (c + w))))"
  by (simp add: stats_def Let_def num_or_Num max_def)

lemma stats_unattempted_missing:
  "unattempted (stats (Num c) (Num w) NaN) = Num (max 0 (fl (65 - fl (c + w))))"
  by (simp add: stats_def Let_def num_or_Num max_def) (simp add: num_or_def)

lemma accuracy_err:
  assumes "0 \<le> c" and "c \<le> a" and "0 < a"
  shows "\<bar>fl (fl (c / a) * 100) - c / a * 100\<bar> \<le> 1 / 10 ^ 13"
proof -
  define q where "q = c / a"
  have q: "0 \<le> q" "q \<le> 1" using assms by (simp_all add: q_def)
  have a: "\<bar>fl q - q\<bar> \<le> 1 / 2 ^ 53"
    using q by (intro fl_unit_err) simp
  then have "\<bar>fl q * 100\<bar> \<le> pow2 7"
    using q by (simp add: pow2_7 abs_if split: if_splits)
  from fl_err_bound [OF this] have b: "\<bar>fl (fl q * 100) - fl q * 100\<bar> \<le> 1 / 2 ^ 46"
    by (simp add: pow2_m46)
  from a b have "\<bar>fl (fl q * 100) - q * 100\<bar> \<le> 1 / 10 ^ 13"
    by (simp add: abs_if split: if_splits)
  then show ?thesis by (simp only: q_def)
qed

lemma stats_whole:
  assumes "0 \<le> ci" and "0 \<le> wi" and "0 \<le> qi" and "ci + wi < 2 ^ 53" and "qi < 2 ^ 53"
  shows "unattempted (stats (Num (of_int ci)) (Num (of_int wi)) (Num (of_int qi)))
       = spec_unattempted (if qi = 0 then 65 else of_int qi) (of_int ci) (of_int wi)"
    and "accuracy (stats (Num (of_int ci)) (Num (of_int wi)) (Num (of_int qi)))
       = (if 0 < ci + wi
          then Num (round1 (fl (fl (of_int ci / of_int (ci + wi)) * 100))) else Num 0)"
proof -
  have s: "fl (of_int ci + of_int wi) = of_int (ci + wi)"
    using assms by (intro fl_whole_sum)
  define t where "t = (if qi = 0 then 65 else qi)"
  have t: "0 \<le> t" "t < 2 ^ 53" using assms by (simp_all add: t_def)
  have tq: "(if (of_int qi :: rat) = 0 then 65 else of_int qi) = of_int t"
    by (simp add: t_def)
  have d: "fl (of_int t - of_int (ci + wi)) = of_int (t - (ci + wi))"
    using t assms by (intro fl_whole_diff) simp_all
  have "unattempted (stats (Num (of_int ci)) (Num (of_int wi)) (Num (of_int qi)))
      = Num (max 0 (of_int (t - (ci + wi))))"
    by (simp only: stats_unattempted tq s d)
  also have "\<dots> = spec_unattempted (of_int t) (of_int ci) (of_int wi)"
    by (simp add: spec_unattempted_def)
  finally show "unattempted (stats (Num (of_int ci)) (Num (of_int wi)) (Num (of_int qi)))
       = spec_unattempted (if qi = 0 then 65 else of_int qi) (of_int ci) (of_int wi)"
    by (simp add: t_def)
  have "accuracy (stats (Num (of_int ci)) (Num (of_int wi)) (Num (of_int qi)))
      = (if (0 :: rat) < of_int (ci + wi)
         then Num (round1 (fl (fl (of_int ci / of_int (ci + wi)) * 100))) else Num 0)"
    by (simp only: stats_accuracy s)
  then show "accuracy (stats (Num (of_int ci)) (Num (of_int wi)) (Num (of_int qi)))
       = (if 0 < ci + wi
          then Num (round1 (fl (fl (of_int ci / of_int (ci + wi)) * 100))) else Num 0)"
    by (simp only: of_int_0_less_iff)
qed

lemma accuracy_exact:
  assumes "0 \<le> ci" and "0 \<le> wi" and "0 < ci + wi"
    and "clear_of_tie (1 / 10 ^ 12) (of_int ci / of_int (ci + wi) * 100 * 10)"
  shows "round1 (fl (fl (of_int ci / of_int (ci + wi)) * 100))
       = round1 (of_int ci / of_int (ci + wi) * 100)"
proof -
  define c :: rat where "c = of_int ci"
  define a :: rat where "a = of_int (ci + wi)"
  have b: "0 \<le> c" "c \<le> a" "0 < a" using assms(1-3) by (simp_all add: c_def a_def)
  have e: "\<bar>fl (fl (c / a) * 100) - c / a * 100\<bar> \<le> 1 / 10 ^ 13"
    using b by (rule accuracy_err)
  then have e10: "\<bar>fl (fl (c / a) * 100) * 10 - c / a * 100 * 10\<bar> \<le> 1 / 10 ^ 12"
    by (simp add: abs_if split: if_splits)
  have p: "0 \<le> fl (fl (c / a) * 100)"
    using b by (intro fl_nonneg mult_nonneg_nonneg) simp_all
  have p': "0 \<le> c / a * 100" using b by simp
  from assms(4) have "clear_of_tie (1 / 10 ^ 12) (c / a * 100 * 10)"
    by (simp only: c_def a_def)
  from tie_clear [OF e10 this]
  have "round1 (fl (fl (c / a) * 100)) = round1 (c / a * 100)"
    by (simp only: round1_nonneg [OF p] round1_nonneg [OF p'])
  then show ?thesis by (simp only: c_def a_def)
qed

text \<open>
  C9, as the code has it. For recorded counts \<open>c\<close> (correct), \<open>w\<close> (wrong) and a
  total \<open>q\<close>, the accuracy is the double value of \<open>c / (c + w) * 100\<close> shown with one
  decimal when the double sum \<open>c + w\<close> is positive and 0 otherwise, and the unattempted
  count is the double value of the total minus \<open>c + w\<close>, or 0 when that is negative,
  where a total that is 0 or missing is replaced by 65. For whole numbers below
  \<open>2^53\<close> the sum and the difference are exact, and the double value of the accuracy is
  within \<open>10^-13\<close> of the exact one: the accuracy shown is the exact one rounded to one
  decimal whenever the exact value is that far from a tie. For 50 correct, 10 wrong and
  65 questions this is 83.3 and 5.
\<close>

theorem stats_formulas:
  "accuracy (stats (Num c) (Num w) (Num q))
     = (if 0 < fl (c + w) then Num (round1 (fl (fl (c / fl (c + w)) * 100))) else Num 0)
   \<and> unattempted (stats (Num c) (Num w) (Num q))
     = Num (max 0 (fl ((if q = 0 then 65 else q) - fl (c + w))))
   \<and> unattempted (stats (Num c) (Num w) NaN) = Num (max 0 (fl (65 - fl (c + w))))
   \<and> (0 \<le> ci \<and> 0 \<le> wi \<and> 0 \<le> qi \<and> ci + wi < 2 ^ 53 \<and> qi < 2 ^ 53 \<longrightarrow>
        unattempted (stats (Num (of_int ci)) (Num (of_int wi)) (Num (of_int qi)))
          = spec_unattempted (if qi = 0 then 65 else of_int qi) (of_int ci) (of_int wi)
        \<and> (ci + wi = 0 \<longrightarrow>
             accuracy (stats (Num (of_int ci)) (Num (of_int wi)) (Num (of_int qi))) = Num 0)
        \<and> (0 < ci + wi \<longrightarrow>
             accuracy (stats (Num (of_int ci)) (Num (of_int wi)) (Num (of_int qi)))
               = Num (round1 (fl (fl (of_int ci / of_int (ci + wi)) * 100)))
             \<and> \<bar>fl (fl (of_int ci / of_int (ci + wi)) * 100)
                 - of_int ci / of_int (ci + wi) * 100\<bar> \<le> 1 / 10 ^ 13)
        \<and> (0 < ci + wi
             \<and> clear_of_tie (1 / 10 ^ 12) (of_int ci / of_int (ci + wi) * 100 * 10) \<longrightarrow>
             accuracy (stats (Num (of_int ci)) (Num (of_int wi)) (Num (of_int qi)))
               = Num (round1 (of_int ci / of_int (ci + wi) * 100))))
   \<and> stats (Num 50) (Num 10) (Num 65) = \<lparr> accuracy = Num (833 / 10), unattempted = Num 5 \<rparr>"
proof -
  have w: "unattempted (stats (Num (of_int ci)) (Num (of_int wi)) (Num (of_int qi)))
          = spec_unattempted (if qi = 0 then 65 else of_int qi) (of_int ci) (of_int wi)
        \<and> (ci + wi = 0 \<longrightarrow>
             accuracy (stats (Num (of_int ci)) (Num (of_int wi)) (Num (of_int qi))) = Num 0)
        \<and> (0 < ci + wi \<longrightarrow>
             accuracy (stats (Num (of_int ci)) (Num (of_int wi)) (Num (of_int qi)))
               = Num (round1 (fl (fl (of_int ci / of_int (ci + wi)) * 100)))
             \<and> \<bar>fl (fl (of_int ci / of_int (ci + wi)) * 100)
                 - of_int ci / of_int (ci + wi) * 100\<bar> \<le> 1 / 10 ^ 13)
        \<and> (0 < ci + wi
             \<and> clear_of_tie (1 / 10 ^ 12) (of_int ci / of_int (ci + wi) * 100 * 10) \<longrightarrow>
             accuracy (stats (Num (of_int ci)) (Num (of_int wi)) (Num (of_int qi)))
               = Num (round1 (of_int ci / of_int (ci + wi) * 100)))"
    if h: "0 \<le> ci \<and> 0 \<le> wi \<and> 0 \<le> qi \<and> ci + wi < 2 ^ 53 \<and> qi < 2 ^ 53"
  proof -
    from h have b: "0 \<le> ci" "0 \<le> wi" "0 \<le> qi" "ci + wi < 2 ^ 53" "qi < 2 ^ 53"
      by simp_all
    note u = stats_whole(1) [OF b] and a = stats_whole(2) [OF b]
    have z: "accuracy (stats (Num (of_int ci)) (Num (of_int wi)) (Num (of_int qi))) = Num 0"
      if "ci + wi = 0"
      using that by (simp only: a) simp
    have p: "accuracy (stats (Num (of_int ci)) (Num (of_int wi)) (Num (of_int qi)))
               = Num (round1 (fl (fl (of_int ci / of_int (ci + wi)) * 100)))"
      if "0 < ci + wi"
      using that by (simp only: a if_True)
    have e: "\<bar>fl (fl (of_int ci / of_int (ci + wi)) * 100)
                 - of_int ci / of_int (ci + wi) * 100\<bar> \<le> 1 / 10 ^ 13"
      if "0 < ci + wi"
      using that b by (intro accuracy_err) simp_all
    have x: "accuracy (stats (Num (of_int ci)) (Num (of_int wi)) (Num (of_int qi)))
               = Num (round1 (of_int ci / of_int (ci + wi) * 100))"
      if "0 < ci + wi \<and> clear_of_tie (1 / 10 ^ 12) (of_int ci / of_int (ci + wi) * 100 * 10)"
    proof -
      from that have pos: "0 < ci + wi"
        and c: "clear_of_tie (1 / 10 ^ 12) (of_int ci / of_int (ci + wi) * 100 * 10)"
        by simp_all
      from accuracy_exact [OF b(1,2) pos c] p [OF pos] show ?thesis by simp
    qed
    from u z p e x show ?thesis by blast
  qed
  have "accuracy (stats (Num 50) (Num 10) (Num 65)) = Num (833 / 10)"
    "unattempted (stats (Num 50) (Num 10) (Num 65)) = Num 5"
    by code_simp+
  then have e: "stats (Num 50) (Num 10) (Num 65) = \<lparr> accuracy = Num (833 / 10), unattempted = Num 5 \<rparr>"
    by (cases "stats (Num 50) (Num 10) (Num 65)") simp
  from stats_accuracy stats_unattempted stats_unattempted_missing w e show ?thesis by blast
qed

theorem stats_formulas_witness:
  "0 \<le> (50::int) \<and> 0 \<le> (10::int) \<and> 0 \<le> (65::int) \<and> (50::int) + 10 < 2 ^ 53
   \<and> (65::int) < 2 ^ 53 \<and> 0 < (50::int) + 10
   \<and> clear_of_tie (1 / 10 ^ 12) (of_int 50 / of_int (50 + 10) * 100 * 10)
   \<and> accuracy (stats (Num 50) (Num 10) (Num 65)) = Num (833 / 10)
   \<and> unattempted (stats (Num 50) (Num 10) (Num 65)) = Num 5
   \<and> (0::int) + 0 = 0
   \<and> accuracy (stats (Num 0) (Num 0) (Num 30)) = Num 0
   \<and> unattempted (stats (Num 0) (Num 0) (Num 30)) = Num 30"
proof -
  have h: "0 \<le> (50::int) \<and> 0 \<le> (10::int) \<and> 0 \<le> (65::int) \<and> (50::int) + 10 < 2 ^ 53
      \<and> (65::int) < 2 ^ 53"
    by simp
  have pos: "0 < (50::int) + 10" by simp
  have c: "clear_of_tie (1 / 10 ^ 12) (of_int 50 / of_int (50 + 10) * 100 * 10)"
    by code_simp
  have r: "round1 (of_int 50 / of_int (50 + 10) * 100) = 833 / 10"
    by code_simp
  have u: "spec_unattempted (if (65::int) = 0 then 65 else of_int 65) (of_int 50) (of_int 10) = Num 5"
    by (simp add: spec_unattempted_def)
  from stats_formulas [of 50 10 65 50 10 65] h pos c
  have "accuracy (stats (Num (of_int 50)) (Num (of_int 10)) (Num (of_int 65)))
        = Num (round1 (of_int 50 / of_int (50 + 10) * 100))
      \<and> unattempted (stats (Num (of_int 50)) (Num (of_int 10)) (Num (of_int 65)))
        = spec_unattempted (if (65::int) = 0 then 65 else of_int 65) (of_int 50) (of_int 10)"
    by blast
  then have 1: "accuracy (stats (Num 50) (Num 10) (Num 65)) = Num (833 / 10)
      \<and> unattempted (stats (Num 50) (Num 10) (Num 65)) = Num 5"
    by (simp only: r u) simp
  have h0: "0 \<le> (0::int) \<and> 0 \<le> (0::int) \<and> 0 \<le> (30::int) \<and> (0::int) + 0 < 2 ^ 53
      \<and> (30::int) < 2 ^ 53"
    by simp
  have z: "(0::int) + 0 = 0" by simp
  have u0: "spec_unattempted (if (30::int) = 0 then 65 else of_int 30) (of_int 0) (of_int 0) = Num 30"
    by (simp add: spec_unattempted_def)
  from stats_formulas [of 0 0 30 0 0 30] h0 z
  have "accuracy (stats (Num (of_int 0)) (Num (of_int 0)) (Num (of_int 30))) = Num 0
      \<and> unattempted (stats (Num (of_int 0)) (Num (of_int 0)) (Num (of_int 30)))
        = spec_unattempted (if (30::int) = 0 then 65 else of_int 30) (of_int 0) (of_int 0)"
    by blast
  then have 2: "accuracy (stats (Num 0) (Num 0) (Num 30)) = Num 0
      \<and> unattempted (stats (Num 0) (Num 0) (Num 30)) = Num 30"
    by (simp only: u0) simp
  from h pos c 1 z 2 show ?thesis by (simp only: simp_thms)
qed

text \<open>
  The claim C9 as written fails in two ways. For a total of 0 with nothing attempted
  the specification's formula gives 0 unattempted questions and the code gives 65. For
  23 correct and 57 wrong the exact accuracy is 28.75, which is 28.8 to one decimal, but
  the double value is just below 28.75 and the accuracy shown is 28.7.
\<close>

theorem stats_formulas_counterexample:
  "unattempted (stats (Num 0) (Num 0) (Num 0)) = Num 65
   \<and> spec_unattempted 0 0 0 = Num 0
   \<and> accuracy (stats (Num 23) (Num 57) (Num 80)) = Num (287 / 10)
   \<and> (23 :: rat) / (23 + 57) * 100 = 115 / 4
   \<and> round1 (23 / (23 + 57) * 100) = 288 / 10"
proof -
  have 1: "unattempted (stats (Num 0) (Num 0) (Num 0)) = Num 65"
    "accuracy (stats (Num 23) (Num 57) (Num 80)) = Num (287 / 10)"
    by code_simp+
  have 2: "spec_unattempted 0 0 0 = Num 0"
    by (simp add: spec_unattempted_def)
  have 3: "round1 (23 / (23 + 57) * 100) = 288 / 10"
    by code_simp
  from 1 2 3 show ?thesis by simp
qed

section \<open>Grouping by subject\<close>











section \<open>The entries of an object\<close>



section \<open>Averages\<close>







section \<open>Sorting with a numeric comparator\<close>







section \<open>The double mean and the exact mean\<close>





section \<open>Subject averages and weakest subjects\<close>















end
